theory Spec2Isabelle
  imports Main
begin

section \<open>Go strings and the standard-library functions the agent calls\<close>

text \<open>
  A Go string is a sequence of bytes, so it is modelled as \<open>string\<close> (a list of
  8-bit characters); \<open>len\<close> is \<open>length\<close>. Go compares strings with \<open><\<close> and
  \<open>>\<close> bytewise and lexicographically, a proper prefix being smaller.
\<close>

fun string_less :: "string \<Rightarrow> string \<Rightarrow> bool" where
  "string_less [] [] = False"
| "string_less [] (y # ys) = True"
| "string_less (x # xs) [] = False"
| "string_less (x # xs) (y # ys) =
     (if (of_char x :: nat) < of_char y then True
      else if (of_char y :: nat) < of_char x then False
      else string_less xs ys)"

text \<open>
  \<open>strings.Split(s, sep)\<close> for a separator of one byte (the agent only splits on
  \<open>"."\<close> and \<open>":"\<close>): every piece between separators, the empty string giving one
  empty piece.
\<close>

fun Split :: "string \<Rightarrow> char \<Rightarrow> string list" where
  "Split [] sep = [[]]"
| "Split (c # cs) sep =
     (if c = sep then [] # Split cs sep
      else (case Split cs sep of
              [] \<Rightarrow> [[c]]
            | p # ps \<Rightarrow> (c # p) # ps))"

text \<open>
  \<open>strings.SplitN(s, sep, n)\<close> for \<open>n > 0\<close>: at most \<open>n\<close> pieces, the last one
  being the unsplit remainder.
\<close>

fun SplitN :: "string \<Rightarrow> char \<Rightarrow> nat \<Rightarrow> string list" where
  "SplitN s sep 0 = []"
| "SplitN s sep (Suc 0) = [s]"
| "SplitN [] sep (Suc (Suc n)) = [[]]"
| "SplitN (c # cs) sep (Suc (Suc n)) =
     (if c = sep then [] # SplitN cs sep (Suc n)
      else (case SplitN cs sep (Suc (Suc n)) of
              [] \<Rightarrow> [[c]]
            | p # ps \<Rightarrow> (c # p) # ps))"

definition is_digit :: "char \<Rightarrow> bool" where
  "is_digit c = (48 \<le> (of_char c :: nat) \<and> (of_char c :: nat) \<le> 57)"

fun digits_value :: "int \<Rightarrow> string \<Rightarrow> int" where
  "digits_value acc [] = acc"
| "digits_value acc (c # cs) = digits_value (acc * 10 + ((of_char c :: int) - 48)) cs"

text \<open>
  \<open>strconv.ParseInt(s, 10, 64)\<close>, and \<open>strconv.Atoi\<close> on a platform whose
  \<open>int\<close> has 64 bits: an optional sign, then at least one decimal digit and nothing
  else; a value outside the 64-bit range is an error. \<open>None\<close> is the error.
\<close>

definition ParseInt :: "string \<Rightarrow> int option" where
  "ParseInt s =
     (let neg = (s \<noteq> [] \<and> hd s = CHR ''-'');
          ds = (if s \<noteq> [] \<and> (hd s = CHR ''-'' \<or> hd s = CHR ''+'') then tl s else s)
      in if ds = [] \<or> \<not> list_all is_digit ds then None
         else (let n = digits_value 0 ds;
                   v = (if neg then - n else n)
               in if - (2 ^ 63) \<le> v \<and> v < 2 ^ 63 then Some v else None))"

definition Atoi :: "string \<Rightarrow> int option" where
  "Atoi s = ParseInt s"

text \<open>\<open>strings.TrimSuffix(s, suffix)\<close>.\<close>

definition TrimSuffix :: "string \<Rightarrow> string \<Rightarrow> string" where
  "TrimSuffix s suffix =
     (if length suffix \<le> length s \<and> drop (length s - length suffix) s = suffix
      then take (length s - length suffix) s
      else s)"

section \<open>Semantic versions\<close>

text \<open>
  Modelled from the spec: the semantic-version library \<open>semver\<close> that
  \<open>versionutil.Compare\<close> calls (\<open>semver.NewVersion\<close> and \<open>Version.Compare\<close>) is
  not among the source files. The spec says: a valid semantic version is
  \<open>MAJOR.MINOR.PATCH\<close> with optional pre-release/build, and two of them are
  compared by semver ordering. Here the build part follows the first \<open>+\<close>, the
  pre-release part the first \<open>-\<close> of what is left, and the rest must be three
  integers separated by dots. The ordering compares major, minor and patch as
  numbers; a version with a pre-release is below the same version without one;
  pre-release identifiers are compared from the left, a numeric one below a
  non-numeric one, two numeric ones as numbers, and a longer list above its
  prefix. The build part takes no part in the ordering.
\<close>

record Version =
  Major :: int
  Minor :: int
  Patch :: int
  PreRelease :: string
  Metadata :: string

definition splitOff :: "string \<Rightarrow> char \<Rightarrow> string \<times> string" where
  "splitOff input delim =
     (case SplitN input delim 2 of
        [a, b] \<Rightarrow> (a, b)
      | _ \<Rightarrow> (input, []))"

definition NewVersion :: "string \<Rightarrow> Version option" where
  "NewVersion version =
     (let (v1, metadata) = splitOff version CHR ''+'';
          (v2, preRelease) = splitOff v1 CHR ''-''
      in (case SplitN v2 CHR ''.'' 3 of
            [a, b, c] \<Rightarrow>
              (case ParseInt a of None \<Rightarrow> None
               | Some ma \<Rightarrow>
                  (case ParseInt b of None \<Rightarrow> None
                   | Some mi \<Rightarrow>
                      (case ParseInt c of None \<Rightarrow> None
                       | Some pa \<Rightarrow>
                          Some \<lparr>Major = ma, Minor = mi, Patch = pa,
                                PreRelease = preRelease, Metadata = metadata\<rparr>)))
          | _ \<Rightarrow> None))"

fun recursiveCompare :: "int list \<Rightarrow> int list \<Rightarrow> int" where
  "recursiveCompare (a # as) (b # bs) =
     (if a > b then 1 else if a < b then - 1 else recursiveCompare as bs)"
| "recursiveCompare as bs = 0"

fun recursivePreReleaseCompare :: "string list \<Rightarrow> string list \<Rightarrow> int" where
  "recursivePreReleaseCompare [] [] = 0"
| "recursivePreReleaseCompare [] (b # bs) = - 1"
| "recursivePreReleaseCompare (a # as) [] = 1"
| "recursivePreReleaseCompare (a # as) (b # bs) =
     (case (Atoi a, Atoi b) of
        (Some ai, None) \<Rightarrow> - 1
      | (None, Some bi) \<Rightarrow> 1
      | (Some ai, Some bi) \<Rightarrow>
          (if ai > bi then 1 else if ai < bi then - 1
           else if string_less b a then 1 else if string_less a b then - 1
           else recursivePreReleaseCompare as bs)
      | (None, None) \<Rightarrow>
          (if string_less b a then 1 else if string_less a b then - 1
           else recursivePreReleaseCompare as bs))"

definition preReleaseCompare :: "Version \<Rightarrow> Version \<Rightarrow> int" where
  "preReleaseCompare versionA versionB =
     (let a = PreRelease versionA; b = PreRelease versionB
      in if length a = 0 \<and> length b > 0 then 1
         else if length b = 0 \<and> length a > 0 then - 1
         else recursivePreReleaseCompare (Split a CHR ''.'') (Split b CHR ''.''))"

definition semver_Compare :: "Version \<Rightarrow> Version \<Rightarrow> int" where
  "semver_Compare v versionB =
     (let cmp = recursiveCompare [Major v, Minor v, Patch v]
                                 [Major versionB, Minor versionB, Patch versionB]
      in if cmp \<noteq> 0 then cmp else preReleaseCompare v versionB)"

section \<open>versionutil: comparing version strings\<close>

text \<open>
  \<open>normalizeForCompare\<close> walks the string from its last byte down to index 0.
  \<open>normalize_loop version n lenSignificant\<close> is the loop about to run with
  \<open>i = n - 1\<close> (and finished when \<open>n = 0\<close>); it returns the final
  \<open>lenSignificant\<close>.
\<close>

fun normalize_loop :: "string \<Rightarrow> nat \<Rightarrow> nat \<Rightarrow> nat" where
  "normalize_loop version 0 lenSignificant = lenSignificant"
| "normalize_loop version (Suc i) lenSignificant =
     (if version ! i \<noteq> CHR ''0'' \<and> version ! i \<noteq> CHR ''.'' then lenSignificant
      else (let l1 = (if version ! i = CHR ''.'' then i else lenSignificant);
                l2 = (if i = 0 then 0 else l1)
            in normalize_loop version i l2))"

definition normalizeForCompare :: "string \<Rightarrow> string" where
  "normalizeForCompare version =
     (if length version = 0 then version
      else take (normalize_loop version (length version) (length version)) version)"

text \<open>
  The loop of \<open>Compare\<close> over the aligned components. The index \<open>i\<close> of the source
  is the number of components already passed on both sides, so the final
  \<open>len(thisComponents) - len(otherComponents)\<close> is the difference of what is left.
\<close>

fun compareComponents :: "string list \<Rightarrow> string list \<Rightarrow> int" where
  "compareComponents (t # ts) (u # us) =
     (case (Atoi t, Atoi u) of
        (Some thisNum, Some otherNum) \<Rightarrow>
          (if thisNum < otherNum then - 1
           else if thisNum > otherNum then 1
           else compareComponents ts us)
      | _ \<Rightarrow>
          (if string_less t u then - 1
           else if string_less u t then 1
           else compareComponents ts us))"
| "compareComponents ts us = int (length ts) - int (length us)"

definition Compare :: "string \<Rightarrow> string \<Rightarrow> bool \<Rightarrow> int" where
  "Compare this other strictSort =
     (case (NewVersion this, NewVersion other) of
        (Some thisSemVer, Some otherSemVer) \<Rightarrow> semver_Compare thisSemVer otherSemVer
      | _ \<Rightarrow>
          (let thisVersion = (if \<not> strictSort then normalizeForCompare this else this);
               otherVersion = (if \<not> strictSort then normalizeForCompare other else other)
           in compareComponents (Split thisVersion CHR ''.'') (Split otherVersion CHR ''.'')))"

section \<open>Go values: slices, maps, pointers, interface values, failures\<close>

text \<open>
  A Go slice is either \<open>nil\<close> or a sequence, and an empty sequence is not the
  \<open>nil\<close> slice; \<open>len\<close> is 0 for both. The same holds for maps, which are kept
  as association lists: the order of the list stands for the order in which
  \<open>range\<close> visits the entries, which Go leaves open. A pointer to a struct is an
  \<open>option\<close>, \<open>None\<close> being the \<open>nil\<close> pointer; every pointer of a document
  has a pointee of its own, as after decoding.
\<close>

datatype 'a slice = NilSlice | Slice "'a list"

fun elems :: "'a slice \<Rightarrow> 'a list" where
  "elems NilSlice = []"
| "elems (Slice xs) = xs"

definition len :: "'a slice \<Rightarrow> nat" where
  "len s = length (elems s)"

datatype ('k, 'v) gomap = NilMap | GoMap "('k \<times> 'v) list"

fun entries :: "('k, 'v) gomap \<Rightarrow> ('k \<times> 'v) list" where
  "entries NilMap = []"
| "entries (GoMap kvs) = kvs"

definition maplen :: "('k, 'v) gomap \<Rightarrow> nat" where
  "maplen m = length (entries m)"

text \<open>A value of type \<open>interface{}\<close> as decoded from a document.\<close>

datatype any = ANil | AString string | ABool bool | AInt int
  | AList "any list" | AMap "(string \<times> any) list"

text \<open>
  A Go function fails by returning an error (here its message) or by a run-time
  panic, which no function of these packages recovers.
\<close>

datatype panic = NilPointerDereference | SendOnClosedChannel

datatype failure = Error string | Panic panic

section \<open>docparser: the data\<close>

text \<open>
  The structs of package \<open>contracts\<close> are declared outside the source files at
  hand; the records have the fields that the parser reads or writes, under the
  names it uses. Every other field of a struct keeps its zero value.
\<close>

record CloudWatchConfiguration =
  LogGroupName :: string
  LogGroupEncryptionEnabled :: bool

record DocumentParserInfo =
  OrchestrationDir :: string
  S3Bucket :: string
  S3Prefix :: string
  S3EncryptionEnabled :: bool
  MessageId :: string
  DocumentId :: string
  DefaultWorkingDir :: string
  CloudWatchConfig :: CloudWatchConfiguration

record DocumentInfo =
  DocumentID :: string
  ClientId :: string

record Parameter =
  DefaultVal :: any
  ParamType :: string

record PluginConfig =
  Settings :: any
  Properties :: any

record InstancePluginConfig =
  Action :: string
  Name :: string
  Inputs :: any
  Settings :: any
  Preconditions :: "(string, string list) gomap"
  MaxAttempts :: int
  TimeoutSeconds :: any
  OnFailure :: string

record DocContent =
  SchemaVersion :: string
  Description :: string
  RuntimeConfig :: "(string, PluginConfig option) gomap"
  MainSteps :: "InstancePluginConfig option slice"
  Parameters :: "(string, Parameter option) gomap"

record SessionDocContent =
  SchemaVersion :: string
  Description :: string
  SessionType :: string
  Inputs :: any

record Configuration =
  Settings :: any
  Properties :: any
  OutputS3BucketName :: string
  OutputS3KeyPrefix :: string
  OrchestrationDirectory :: string
  MessageId :: string
  BookKeepingFileName :: string
  PluginName :: string
  PluginID :: string
  Preconditions :: "(string, string list) gomap"
  IsPreconditionEnabled :: bool
  DefaultWorkingDirectory :: string
  SessionId :: string
  ClientId :: string
  S3EncryptionEnabled :: bool
  CloudWatchLogGroup :: string
  CloudWatchEncryptionEnabled :: bool

record PluginState =
  Configuration :: Configuration
  Name :: string
  Id :: string

text \<open>
  What the parser takes from packages that are not at hand: the path builders of
  \<open>fileutil\<close>, the name of the standard-stream plugin and the table of supported
  schema versions of \<open>appconfig\<close>, the parameter functions of \<open>parameters\<close> and
  \<open>parameterstore\<close> (\<open>Resolve\<close> returns a value and an error, \<open>None\<close> being
  \<open>nil\<close>), and the strictness with which \<open>updateutil.VersionCompare\<close> compares.
  The log sink is left out: nothing the parser returns depends on it.
\<close>

record deps =
  BuildPath :: "string \<Rightarrow> string \<Rightarrow> string"
  BuildS3Path :: "string \<Rightarrow> string \<Rightarrow> string"
  PluginNameStandardStream :: string
  SupportedDocumentVersions :: "string list"
  ValidParameters :: "(string \<times> any) list \<Rightarrow> (string \<times> any) list"
  ValidateSSMParameters ::
    "(string, Parameter option) gomap \<Rightarrow> (string \<times> any) list \<Rightarrow> string option"
  ReplaceParameters :: "any \<Rightarrow> (string \<times> any) list \<Rightarrow> any"
  Resolve :: "any \<Rightarrow> any \<times> string option"
  compareStrict :: bool

text \<open>The zero value of \<open>contracts.Configuration\<close>.\<close>

definition zeroConfiguration :: Configuration where
  "zeroConfiguration =
     \<lparr>Configuration.Settings = ANil, Properties = ANil, OutputS3BucketName = [],
      OutputS3KeyPrefix = [], OrchestrationDirectory = [], MessageId = [],
      BookKeepingFileName = [], PluginName = [], PluginID = [],
      Preconditions = NilMap, IsPreconditionEnabled = False,
      DefaultWorkingDirectory = [], SessionId = [], ClientId = [],
      S3EncryptionEnabled = False, CloudWatchLogGroup = [],
      CloudWatchEncryptionEnabled = False\<rparr>"

section \<open>docparser: precondition support\<close>

definition preconditionSchemaVersion :: string where
  "preconditionSchemaVersion = ''2.2''"

text \<open>
  Modelled from the spec: \<open>updateutil.VersionCompare\<close>, which
  \<open>isPreconditionEnabled\<close> calls, is not among the source files. The spec says
  that the precondition flag is \<open>schemaVersion \<ge> "2.2"\<close> "using the version
  comparator above", that is \<open>Compare\<close>, and gives it no error case; it does not
  say with which strictness, so that is a parameter.
\<close>

definition VersionCompare :: "bool \<Rightarrow> string \<Rightarrow> string \<Rightarrow> int \<times> string option" where
  "VersionCompare strictSort versionl versionr = (Compare versionl versionr strictSort, None)"

definition isPreconditionEnabled :: "deps \<Rightarrow> string \<Rightarrow> bool" where
  "isPreconditionEnabled d schemaVersion =
     (let (versionCompare, err) =
            VersionCompare (compareStrict d) schemaVersion preconditionSchemaVersion
      in if err = None \<and> versionCompare \<ge> 0 then True else False)"

section \<open>docparser: from a document to plugin states\<close>

text \<open>
  The loop of \<open>parsePluginStateForV10Schema\<close> over the entries of
  \<open>RuntimeConfig\<close>; the second loop of the source turns each configuration into
  a plugin state in the same order, which is done here in the same step.
\<close>

fun v10_loop ::
  "deps \<Rightarrow> string \<Rightarrow> string \<Rightarrow> string \<Rightarrow> string \<Rightarrow> string \<Rightarrow> string \<Rightarrow>
   (string \<times> PluginConfig option) list \<Rightarrow> PluginState list \<Rightarrow> failure + PluginState list"
where
  "v10_loop d orchestrationDir s3Bucket s3Prefix messageID documentID defaultWorkingDir
     [] pluginsInfo = Inr pluginsInfo"
| "v10_loop d orchestrationDir s3Bucket s3Prefix messageID documentID defaultWorkingDir
     ((pluginName, p) # rest) pluginsInfo =
     (case p of
        None \<Rightarrow> Inl (Panic NilPointerDereference)
      | Some pluginConfig \<Rightarrow>
          (let config = zeroConfiguration
                 \<lparr>Configuration.Settings := PluginConfig.Settings pluginConfig,
                  Configuration.Properties := PluginConfig.Properties pluginConfig,
                  OutputS3BucketName := s3Bucket,
                  OutputS3KeyPrefix := BuildS3Path d s3Prefix pluginName,
                  OrchestrationDirectory := BuildPath d orchestrationDir pluginName,
                  Configuration.MessageId := messageID,
                  BookKeepingFileName := documentID,
                  PluginName := pluginName,
                  PluginID := pluginName,
                  DefaultWorkingDirectory := defaultWorkingDir\<rparr>;
               plugin = \<lparr>Configuration = config, Name = PluginName config, Id = PluginID config\<rparr>
           in v10_loop d orchestrationDir s3Bucket s3Prefix messageID documentID
                defaultWorkingDir rest (pluginsInfo @ [plugin])))"

definition parsePluginStateForV10Schema ::
  "deps \<Rightarrow> DocContent \<Rightarrow> string \<Rightarrow> string \<Rightarrow> string \<Rightarrow> string \<Rightarrow> string \<Rightarrow> string \<Rightarrow>
   failure + PluginState list"
where
  "parsePluginStateForV10Schema d docContent orchestrationDir s3Bucket s3Prefix messageID
     documentID defaultWorkingDir =
     (if maplen (RuntimeConfig docContent) = 0 then Inl (Error ''Unsupported schema format'')
      else v10_loop d orchestrationDir s3Bucket s3Prefix messageID documentID
             defaultWorkingDir (entries (RuntimeConfig docContent)) [])"

text \<open>
  The state of one step of a v2.x document, as the body of the loop of
  \<open>parsePluginStateForV20Schema\<close> builds it.
\<close>

definition v20_plugin ::
  "deps \<Rightarrow> string \<Rightarrow> string \<Rightarrow> string \<Rightarrow> string \<Rightarrow> string \<Rightarrow> string \<Rightarrow> bool \<Rightarrow>
   InstancePluginConfig \<Rightarrow> PluginState"
where
  "v20_plugin d orchestrationDir s3Bucket s3Prefix messageID documentID defaultWorkingDir
     isPrecondEnabled instancePluginConfig =
     (let pluginName = Action instancePluginConfig;
          config = zeroConfiguration
            \<lparr>Configuration.Settings := InstancePluginConfig.Settings instancePluginConfig,
             Configuration.Properties := InstancePluginConfig.Inputs instancePluginConfig,
             OutputS3BucketName := s3Bucket,
             OutputS3KeyPrefix := BuildS3Path d s3Prefix pluginName,
             OrchestrationDirectory :=
               BuildPath d orchestrationDir (InstancePluginConfig.Name instancePluginConfig),
             Configuration.MessageId := messageID,
             BookKeepingFileName := documentID,
             PluginName := pluginName,
             PluginID := InstancePluginConfig.Name instancePluginConfig,
             Configuration.Preconditions := InstancePluginConfig.Preconditions instancePluginConfig,
             IsPreconditionEnabled := isPrecondEnabled,
             DefaultWorkingDirectory := defaultWorkingDir\<rparr>
      in \<lparr>Configuration = config, Name = PluginName config, Id = PluginID config\<rparr>)"

text \<open>The loop over \<open>MainSteps\<close>; reading a field of a \<open>nil\<close> step panics.\<close>

fun v20_loop ::
  "deps \<Rightarrow> string \<Rightarrow> string \<Rightarrow> string \<Rightarrow> string \<Rightarrow> string \<Rightarrow> string \<Rightarrow> bool \<Rightarrow>
   InstancePluginConfig option list \<Rightarrow> PluginState list \<Rightarrow> failure + PluginState list"
where
  "v20_loop d orchestrationDir s3Bucket s3Prefix messageID documentID defaultWorkingDir
     isPrecondEnabled [] pluginsInfo = Inr pluginsInfo"
| "v20_loop d orchestrationDir s3Bucket s3Prefix messageID documentID defaultWorkingDir
     isPrecondEnabled (p # rest) pluginsInfo =
     (case p of
        None \<Rightarrow> Inl (Panic NilPointerDereference)
      | Some instancePluginConfig \<Rightarrow>
          v20_loop d orchestrationDir s3Bucket s3Prefix messageID documentID defaultWorkingDir
            isPrecondEnabled rest
            (pluginsInfo @ [v20_plugin d orchestrationDir s3Bucket s3Prefix messageID
                              documentID defaultWorkingDir isPrecondEnabled
                              instancePluginConfig]))"

definition parsePluginStateForV20Schema ::
  "deps \<Rightarrow> DocContent \<Rightarrow> string \<Rightarrow> string \<Rightarrow> string \<Rightarrow> string \<Rightarrow> string \<Rightarrow> string \<Rightarrow>
   failure + PluginState list"
where
  "parsePluginStateForV20Schema d docContent orchestrationDir s3Bucket s3Prefix messageID
     documentID defaultWorkingDir =
     (if len (MainSteps docContent) = 0 then Inl (Error ''Unsupported schema format'')
      else v20_loop d orchestrationDir s3Bucket s3Prefix messageID documentID
             defaultWorkingDir (isPreconditionEnabled d (DocContent.SchemaVersion docContent))
             (elems (MainSteps docContent)) [])"

definition parseDocumentContent ::
  "deps \<Rightarrow> DocContent \<Rightarrow> DocumentParserInfo \<Rightarrow> failure + PluginState list"
where
  "parseDocumentContent d docContent parserInfo =
     (if DocContent.SchemaVersion docContent \<in> set [''1.0'', ''1.2'']
      then parsePluginStateForV10Schema d docContent (OrchestrationDir parserInfo)
             (S3Bucket parserInfo) (S3Prefix parserInfo) (DocumentParserInfo.MessageId parserInfo)
             (DocumentId parserInfo) (DefaultWorkingDir parserInfo)
      else if DocContent.SchemaVersion docContent
                \<in> set [''2.0'', ''2.0.1'', ''2.0.2'', ''2.0.3'', ''2.2'']
      then parsePluginStateForV20Schema d docContent (OrchestrationDir parserInfo)
             (S3Bucket parserInfo) (S3Prefix parserInfo) (DocumentParserInfo.MessageId parserInfo)
             (DocumentId parserInfo) (DefaultWorkingDir parserInfo)
      else Inl (Error ''Unsupported document''))"

definition parsePluginStateForStartSession ::
  "deps \<Rightarrow> DocumentParserInfo \<Rightarrow> string \<Rightarrow> string \<Rightarrow> failure + PluginState list"
where
  "parsePluginStateForStartSession d parserInfo sessionId clientId =
     (let pluginName = PluginNameStandardStream d;
          config = zeroConfiguration
            \<lparr>Configuration.MessageId := DocumentParserInfo.MessageId parserInfo,
             BookKeepingFileName := DocumentId parserInfo,
             PluginName := pluginName,
             PluginID := pluginName,
             DefaultWorkingDirectory := DefaultWorkingDir parserInfo,
             SessionId := sessionId,
             OutputS3KeyPrefix := S3Prefix parserInfo,
             OutputS3BucketName := S3Bucket parserInfo,
             Configuration.S3EncryptionEnabled := DocumentParserInfo.S3EncryptionEnabled parserInfo,
             OrchestrationDirectory := BuildPath d (OrchestrationDir parserInfo) pluginName,
             Configuration.ClientId := clientId,
             CloudWatchLogGroup := LogGroupName (CloudWatchConfig parserInfo),
             CloudWatchEncryptionEnabled :=
               LogGroupEncryptionEnabled (CloudWatchConfig parserInfo)\<rparr>;
          plugin = \<lparr>Configuration = config, Name = PluginName config, Id = PluginID config\<rparr>
      in Inr ([] @ [plugin]))"

text \<open>
  \<open>ParseDocument\<close> of a session document. The receiver is not read, and neither
  are the parameters.
\<close>

definition SessionDocContent_ParseDocument ::
  "deps \<Rightarrow> SessionDocContent \<Rightarrow> DocumentInfo \<Rightarrow> DocumentParserInfo \<Rightarrow> (string \<times> any) list \<Rightarrow>
   failure + PluginState list"
where
  "SessionDocContent_ParseDocument d sessionDocContent docInfo parserInfo params =
     parsePluginStateForStartSession d parserInfo (DocumentID docInfo)
       (DocumentInfo.ClientId docInfo)"

section \<open>docparser: schema gate and parameter substitution\<close>

definition validateSchema :: "deps \<Rightarrow> string \<Rightarrow> string option" where
  "validateSchema d documentSchemaVersion =
     (if documentSchemaVersion \<notin> set (SupportedDocumentVersions d)
      then Some (''Document with schema version '' @ documentSchemaVersion @
                 '' is not supported by this version of ssm agent, please update to latest version'')
      else None)"

text \<open>
  The loop of \<open>replaceValidatedPluginParameters\<close> over \<open>runtimeConfig\<close>. The map
  holds pointers, so what the loop writes is seen through \<open>docContent\<close> even when
  it returns early with an error; the loop returns the error (if any) together
  with the entries as they then are.
\<close>

fun replaceRuntimeConfig ::
  "deps \<Rightarrow> (string \<times> any) list \<Rightarrow> (string \<times> PluginConfig option) list \<Rightarrow>
   panic + (string option \<times> (string \<times> PluginConfig option) list)"
where
  "replaceRuntimeConfig d params [] = Inr (None, [])"
| "replaceRuntimeConfig d params ((pluginName, p) # rest) =
     (case p of
        None \<Rightarrow> Inl NilPointerDereference
      | Some pluginConfig \<Rightarrow>
          (let c1 = pluginConfig
                 \<lparr>PluginConfig.Settings :=
                    ReplaceParameters d (PluginConfig.Settings pluginConfig) params\<rparr>;
               c2 = c1\<lparr>PluginConfig.Properties :=
                         ReplaceParameters d (PluginConfig.Properties c1) params\<rparr>;
               (s, err1) = Resolve d (PluginConfig.Settings c2);
               c3 = c2\<lparr>PluginConfig.Settings := s\<rparr>
           in if err1 \<noteq> None then Inr (err1, (pluginName, Some c3) # rest)
              else (let (q, err2) = Resolve d (PluginConfig.Properties c3);
                        c4 = c3\<lparr>PluginConfig.Properties := q\<rparr>
                    in if err2 \<noteq> None then Inr (err2, (pluginName, Some c4) # rest)
                       else (case replaceRuntimeConfig d params rest of
                               Inl pn \<Rightarrow> Inl pn
                             | Inr (err, rest') \<Rightarrow> Inr (err, (pluginName, Some c4) # rest')))))"

text \<open>The loop over \<open>mainSteps\<close>, in the same way.\<close>

fun replaceMainSteps ::
  "deps \<Rightarrow> (string \<times> any) list \<Rightarrow> InstancePluginConfig option list \<Rightarrow>
   panic + (string option \<times> InstancePluginConfig option list)"
where
  "replaceMainSteps d params [] = Inr (None, [])"
| "replaceMainSteps d params (p # rest) =
     (case p of
        None \<Rightarrow> Inl NilPointerDereference
      | Some instancePluginConfig \<Rightarrow>
          (let c1 = instancePluginConfig
                 \<lparr>InstancePluginConfig.Settings :=
                    ReplaceParameters d (InstancePluginConfig.Settings instancePluginConfig) params\<rparr>;
               c2 = c1\<lparr>InstancePluginConfig.Inputs :=
                         ReplaceParameters d (InstancePluginConfig.Inputs c1) params\<rparr>;
               (s, err1) = Resolve d (InstancePluginConfig.Settings c2);
               c3 = c2\<lparr>InstancePluginConfig.Settings := s\<rparr>
           in if err1 \<noteq> None then Inr (err1, Some c3 # rest)
              else (let (q, err2) = Resolve d (InstancePluginConfig.Inputs c3);
                        c4 = c3\<lparr>InstancePluginConfig.Inputs := q\<rparr>
                    in if err2 \<noteq> None then Inr (err2, Some c4 # rest)
                       else (case replaceMainSteps d params rest of
                               Inl pn \<Rightarrow> Inl pn
                             | Inr (err, rest') \<Rightarrow> Inr (err, Some c4 # rest')))))"

text \<open>
  The two conditionals of \<open>replaceValidatedPluginParameters\<close>, as written:
  \<open>runtimeConfig != nil && len(runtimeConfig) != 0\<close> and
  \<open>mainSteps != nil || len(mainSteps) != 0\<close>.
\<close>

definition runtimeConfig_condition :: "(string, PluginConfig option) gomap \<Rightarrow> bool" where
  "runtimeConfig_condition runtimeConfig =
     (runtimeConfig \<noteq> NilMap \<and> maplen runtimeConfig \<noteq> 0)"

definition mainSteps_condition :: "InstancePluginConfig option slice \<Rightarrow> bool" where
  "mainSteps_condition mainSteps = (mainSteps \<noteq> NilSlice \<or> len mainSteps \<noteq> 0)"

text \<open>
  \<open>replaceValidatedPluginParameters\<close> changes the document behind its pointer
  and returns an error or \<open>nil\<close>: the result is the error and the document
  afterwards. A new \<open>RuntimeConfig\<close> or \<open>MainSteps\<close> is stored only when the
  loop has finished; it is made by \<open>make\<close>, so it is not \<open>nil\<close>.
\<close>

definition replaceValidatedPluginParameters ::
  "deps \<Rightarrow> DocContent \<Rightarrow> (string \<times> any) list \<Rightarrow> panic + (string option \<times> DocContent)"
where
  "replaceValidatedPluginParameters d docContent params =
     (let runtimeConfig = RuntimeConfig docContent
      in if runtimeConfig_condition runtimeConfig
         then (case replaceRuntimeConfig d params (entries runtimeConfig) of
                 Inl pn \<Rightarrow> Inl pn
               | Inr (err, updated) \<Rightarrow>
                   Inr (err, docContent\<lparr>RuntimeConfig := GoMap updated\<rparr>))
         else (let mainSteps = MainSteps docContent
               in if mainSteps_condition mainSteps
                  then (case replaceMainSteps d params (elems mainSteps) of
                          Inl pn \<Rightarrow> Inl pn
                        | Inr (err, updated) \<Rightarrow>
                            Inr (err, docContent\<lparr>MainSteps := Slice updated\<rparr>))
                  else Inr (None, docContent)))"

text \<open>
  The loop of \<open>getValidatedParameters\<close> that fills in the default value of every
  declared parameter the caller has not given.
\<close>

fun addDefaults ::
  "(string \<times> Parameter option) list \<Rightarrow> (string \<times> any) list \<Rightarrow> panic + (string \<times> any) list"
where
  "addDefaults [] validParameters = Inr validParameters"
| "addDefaults ((k, v) # rest) validParameters =
     (case map_of validParameters k of
        Some x \<Rightarrow> addDefaults rest validParameters
      | None \<Rightarrow>
          (case v of
             None \<Rightarrow> Inl NilPointerDereference
           | Some p \<Rightarrow> addDefaults rest (validParameters @ [(k, DefaultVal p)])))"

definition getValidatedParameters ::
  "deps \<Rightarrow> (string \<times> any) list \<Rightarrow> DocContent \<Rightarrow> panic + (string option \<times> DocContent)"
where
  "getValidatedParameters d params docContent =
     (case addDefaults (entries (Parameters docContent)) (ValidParameters d params) of
        Inl pn \<Rightarrow> Inl pn
      | Inr validParameters \<Rightarrow>
          (case ValidateSSMParameters d (Parameters docContent) validParameters of
             Some err \<Rightarrow> Inr (Some err, docContent)
           | None \<Rightarrow> replaceValidatedPluginParameters d docContent validParameters))"

text \<open>
  \<open>ParseDocument\<close> of a command document: the plugin states or the failure, and
  the document as the call leaves it.
\<close>

definition DocContent_ParseDocument ::
  "deps \<Rightarrow> DocContent \<Rightarrow> DocumentInfo \<Rightarrow> DocumentParserInfo \<Rightarrow> (string \<times> any) list \<Rightarrow>
   (failure + PluginState list) \<times> DocContent"
where
  "DocContent_ParseDocument d docContent docInfo parserInfo params =
     (case validateSchema d (DocContent.SchemaVersion docContent) of
        Some err \<Rightarrow> (Inl (Error err), docContent)
      | None \<Rightarrow>
          (case getValidatedParameters d params docContent of
             Inl pn \<Rightarrow> (Inl (Panic pn), docContent)
           | Inr (Some err, docContent') \<Rightarrow> (Inl (Error err), docContent')
           | Inr (None, docContent') \<Rightarrow>
               (parseDocumentContent d docContent' parserInfo, docContent')))"

section \<open>docparser: document name and version\<close>

text \<open>
  \<open>filepath.Base\<close> where the path separator is \<open>/\<close> and there are no volume
  names: trailing separators are dropped, then everything up to the last
  separator; the empty path gives \<open>"."\<close> and a path of separators only gives
  \<open>"/"\<close>.
\<close>

definition lastElement :: "string \<Rightarrow> string" where
  "lastElement path = rev (takeWhile (\<lambda>c. c \<noteq> CHR ''/'') (rev path))"

definition Base :: "string \<Rightarrow> string" where
  "Base path =
     (if path = [] then ''.''
      else (let p1 = rev (dropWhile (\<lambda>c. c = CHR ''/'') (rev path));
                p2 = lastElement p1
            in if p2 = [] then ''/'' else p2))"

definition ParseDocumentNameAndVersion :: "string \<Rightarrow> string \<times> string" where
  "ParseDocumentNameAndVersion name =
     (if length name = 0 then ([], [])
      else (let docNameWithVersion = Base name;
                docNameArray = Split docNameWithVersion CHR '':'';
                docVersion = (if length docNameArray > 1 then docNameArray ! 1 else []);
                docName = TrimSuffix name (CHR '':'' # docVersion)
            in (docName, docVersion)))"

section \<open>Concrete inputs\<close>

text \<open>
  Stand-ins for the packages that are not at hand, for running the parser on
  concrete documents: paths are joined with \<open>/\<close>, every parameter is valid and
  nothing is substituted.
\<close>

definition example_deps :: deps where
  "example_deps =
     \<lparr>BuildPath = (\<lambda>root e. root @ ''/'' @ e),
      BuildS3Path = (\<lambda>root e. root @ ''/'' @ e),
      PluginNameStandardStream = ''Standard_Stream'',
      SupportedDocumentVersions = [''1.0'', ''1.2'', ''2.0'', ''2.0.1'', ''2.0.2'', ''2.0.3'', ''2.2''],
      ValidParameters = (\<lambda>params. params),
      ValidateSSMParameters = (\<lambda>declared merged. None),
      ReplaceParameters = (\<lambda>v params. v),
      Resolve = (\<lambda>v. (v, None)),
      compareStrict = False\<rparr>"

definition example_parserInfo :: DocumentParserInfo where
  "example_parserInfo =
     \<lparr>OrchestrationDir = ''/var/lib/orchestration'', S3Bucket = ''bucket'', S3Prefix = ''prefix'',
      DocumentParserInfo.S3EncryptionEnabled = True,
      DocumentParserInfo.MessageId = ''message-1'', DocumentId = ''document-1'',
      DefaultWorkingDir = ''/tmp'',
      CloudWatchConfig = \<lparr>LogGroupName = ''group'', LogGroupEncryptionEnabled = True\<rparr>\<rparr>"

text \<open>The two steps of the document of \<open>testdata.EchoMDSMessage\<close>.\<close>

definition pluginLinux :: InstancePluginConfig where
  "pluginLinux =
     \<lparr>Action = ''aws:runShellScript'', InstancePluginConfig.Name = ''pluginLinux'',
      InstancePluginConfig.Inputs = AMap [(''runCommand'', AList [AString ''echo ship_it''])],
      InstancePluginConfig.Settings = ANil,
      InstancePluginConfig.Preconditions = GoMap [(''StringEquals'', [''platformType'', ''Linux''])],
      MaxAttempts = 0, TimeoutSeconds = AInt 0, OnFailure = []\<rparr>"

definition pluginWindows :: InstancePluginConfig where
  "pluginWindows =
     \<lparr>Action = ''aws:runPowerShellScript'', InstancePluginConfig.Name = ''pluginWindows'',
      InstancePluginConfig.Inputs = AMap [(''runCommand'', AList [AString ''echo ship_it''])],
      InstancePluginConfig.Settings = ANil,
      InstancePluginConfig.Preconditions = GoMap [(''StringEquals'', [''platformType'', ''Windows''])],
      MaxAttempts = 0, TimeoutSeconds = AInt 0, OnFailure = []\<rparr>"

definition echoDocument :: DocContent where
  "echoDocument =
     \<lparr>DocContent.SchemaVersion = ''2.2'', DocContent.Description = ''doc'', RuntimeConfig = NilMap,
      MainSteps = Slice [Some pluginLinux, Some pluginWindows], Parameters = NilMap\<rparr>"

section \<open>task: cancel flags and the job store\<close>

text \<open>
  Modelled from the spec: \<open>ChanneledCancelFlag\<close> is not among the source files.
  The spec gives it three states, \<open>Running\<close> at first; \<open>Set(state)\<close> moves a
  running flag to \<open>state\<close> and is a no-op otherwise, and \<open>Canceled()\<close> is true
  iff the state is \<open>Canceled\<close>. A token holds a pointer to its flag, so the flags
  live in a store indexed by address.
\<close>

datatype State = Running | Canceled | ShutDown

type_synonym flag_store = "nat \<Rightarrow> State"

definition Set_flag :: "flag_store \<Rightarrow> nat \<Rightarrow> State \<Rightarrow> flag_store" where
  "Set_flag fs f state = (if fs f = Running then fs(f := state) else fs)"

definition Canceled_flag :: "flag_store \<Rightarrow> nat \<Rightarrow> bool" where
  "Canceled_flag fs f = (fs f = Canceled)"

text \<open>
  A job token. The job is an opaque callable and is known here by a number; the
  log of the token is left out.
\<close>

record JobToken =
  id_t :: string
  job :: nat
  cancelFlag :: nat

text \<open>The error kinds of the pool that the spec names.\<close>

datatype pool_error = DuplicateJob | PoolShutDown

text \<open>
  Modelled from the spec: \<open>JobStore\<close> is not among the source files. The spec
  makes it a mapping from job id to token with an atomic insert-if-absent
  \<open>AddJob\<close> that fails with \<open>DuplicateJob\<close>, a lookup \<open>GetJob\<close>, an idempotent
  \<open>DeleteJob\<close>, and \<open>DeleteAllJobs\<close>, which returns the tokens and empties the
  store.
\<close>

type_synonym JobStore = "(string \<times> JobToken) list"

definition NewJobStore :: JobStore where
  "NewJobStore = []"

definition AddJob :: "JobStore \<Rightarrow> string \<Rightarrow> JobToken \<Rightarrow> pool_error + JobStore" where
  "AddJob js jobID token =
     (if map_of js jobID \<noteq> None then Inl DuplicateJob else Inr (js @ [(jobID, token)]))"

definition GetJob :: "JobStore \<Rightarrow> string \<Rightarrow> JobToken option" where
  "GetJob js jobID = map_of js jobID"

definition DeleteJob :: "JobStore \<Rightarrow> string \<Rightarrow> JobStore" where
  "DeleteJob js jobID = filter (\<lambda>kv. fst kv \<noteq> jobID) js"

definition DeleteAllJobs :: "JobStore \<Rightarrow> JobToken list \<times> JobStore" where
  "DeleteAllJobs js = (map snd js, [])"

section \<open>task: the pool\<close>

text \<open>
  A worker is a goroutine running \<open>worker\<close>: it waits at \<open>range queue\<close>, or
  holds a token it has received and not yet looked at, or is inside
  \<open>processor(token)\<close>, or has left the loop.
\<close>

datatype worker = Idle | Holding JobToken | Processing JobToken | Exited

text \<open>
  The pool. \<open>jobQueue\<close> is an unbuffered channel: it holds no tokens, it is open
  or closed (\<open>queueClosed\<close>), and \<open>sending\<close> are the tokens of the \<open>Submit\<close> calls
  that are blocked in \<open>p.jobQueue <- token\<close>. \<open>flags\<close> is the store of the cancel
  flags and \<open>nextFlag\<close> the next free address. \<open>workers\<close> are the goroutines that
  \<open>start\<close> has launched, and \<open>leaked\<close> the jobs that a processor has given up
  waiting for and that are still running. The log and the clock are left out.
\<close>

record pool =
  nWorkers :: int
  isShutdown :: bool
  queueClosed :: bool
  sending :: "JobToken list"
  jobStore :: JobStore
  cancelDuration :: int
  flags :: flag_store
  nextFlag :: nat
  workers :: "worker list"
  leaked :: "JobToken list"

text \<open>
  \<open>NewPool\<close>; \<open>start\<close> launches one worker for every \<open>i\<close> with
  \<open>0 \<le> i < nWorkers\<close>, so none when \<open>maxParallel\<close> is not positive.
\<close>

definition NewPool :: "int \<Rightarrow> int \<Rightarrow> pool" where
  "NewPool maxParallel cancelWaitDuration =
     \<lparr>nWorkers = maxParallel, isShutdown = False, queueClosed = False, sending = [],
      jobStore = NewJobStore, cancelDuration = cancelWaitDuration,
      flags = (\<lambda>f. Running), nextFlag = 0,
      workers = replicate (nat maxParallel) Idle, leaked = []\<rparr>"

text \<open>
  \<open>Submit\<close> up to its last statement, the send on the queue. \<open>AddJob\<close> may fail,
  and then \<open>Submit\<close> returns the error. A send on a closed channel panics; a send
  on an open unbuffered channel blocks until a worker receives the token, and
  \<open>Submit\<close> returns \<open>nil\<close> after that.
\<close>

datatype submit_outcome = Returns "pool_error option" | Panics panic | Sends JobToken

definition Submit :: "pool \<Rightarrow> string \<Rightarrow> nat \<Rightarrow> submit_outcome \<times> pool" where
  "Submit p jobID j =
     (let token = \<lparr>id_t = jobID, job = j, cancelFlag = nextFlag p\<rparr>;
          p1 = p\<lparr>flags := (flags p)(nextFlag p := Running), nextFlag := Suc (nextFlag p)\<rparr>
      in (case AddJob (jobStore p1) jobID token of
            Inl err \<Rightarrow> (Returns (Some err), p1)
          | Inr js \<Rightarrow>
              (let p2 = p1\<lparr>jobStore := js\<rparr>
               in if queueClosed p2 then (Panics SendOnClosedChannel, p2)
                  else (Sends token, p2\<lparr>sending := sending p2 @ [token]\<rparr>))))"

definition HasJob :: "pool \<Rightarrow> string \<Rightarrow> bool" where
  "HasJob p jobID = (GetJob (jobStore p) jobID \<noteq> None)"

definition Cancel :: "pool \<Rightarrow> string \<Rightarrow> bool \<times> pool" where
  "Cancel p jobID =
     (case GetJob (jobStore p) jobID of
        None \<Rightarrow> (False, p)
      | Some jobToken \<Rightarrow>
          (let p1 = p\<lparr>jobStore := DeleteJob (jobStore p) jobID\<rparr>;
               p2 = p1\<lparr>flags := Set_flag (flags p1) (cancelFlag jobToken) Canceled\<rparr>
           in (True, p2)))"

fun set_all :: "flag_store \<Rightarrow> JobToken list \<Rightarrow> State \<Rightarrow> flag_store" where
  "set_all fs [] state = fs"
| "set_all fs (token # rest) state = set_all (Set_flag fs (cancelFlag token) state) rest state"

definition CancelAll :: "pool \<Rightarrow> pool" where
  "CancelAll p =
     (let (jobs, js) = DeleteAllJobs (jobStore p)
      in p\<lparr>jobStore := js, flags := set_all (flags p) jobs Canceled\<rparr>)"

definition ShutDownAll :: "pool \<Rightarrow> pool" where
  "ShutDownAll p =
     (let (jobs, js) = DeleteAllJobs (jobStore p)
      in p\<lparr>jobStore := js, flags := set_all (flags p) jobs ShutDown\<rparr>)"

text \<open>
  \<open>Shutdown\<close>. Closing the channel makes every send that is blocked on it panic,
  so no token is left in \<open>sending\<close>.
\<close>

definition Shutdown :: "pool \<Rightarrow> pool" where
  "Shutdown p =
     (let p1 = ShutDownAll p
      in if \<not> isShutdown p1 then p1\<lparr>queueClosed := True, sending := [], isShutdown := True\<rparr>
         else p1)"

section \<open>task: executions of the pool\<close>

text \<open>
  Modelled from the spec: \<open>process\<close>, which the processor of \<open>NewPool\<close> calls,
  is not among the source files. The spec says that it waits for the job to
  return or for the flag to leave \<open>Running\<close>; in the second case it waits a while
  longer for the job and then abandons it, and the goroutine of the job goes on
  running. So \<open>process\<close> can come back with the job returned at any time, and
  with the job abandoned once the flag is no longer \<open>Running\<close>.
\<close>

datatype process_result = JobReturned | JobAbandoned

definition process :: "flag_store \<Rightarrow> JobToken \<Rightarrow> process_result \<Rightarrow> bool" where
  "process fs token r =
     (case r of JobReturned \<Rightarrow> True | JobAbandoned \<Rightarrow> fs (cancelFlag token) \<noteq> Running)"

text \<open>
  An execution is a sequence of steps of the callers and of the workers. A call
  of \<open>Cancel\<close>, \<open>CancelAll\<close> or \<open>Shutdown\<close> is one step, and so is \<open>Submit\<close> up to
  its send. The steps of a worker follow \<open>worker\<close>: it receives the token of a
  blocked \<open>Submit\<close> (\<open>Receive\<close>), or finds the queue closed and leaves
  (\<open>Exit\<close>); it drops a token whose flag is canceled and calls the processor
  otherwise (\<open>Check\<close>); the processor comes back when \<open>process\<close> does, deletes
  the job from the store and gives the worker back to the queue
  (\<open>ProcessorReturns\<close>). An abandoned job returns by itself at some later point
  (\<open>LeakedReturns\<close>).
\<close>

datatype action =
    DoSubmit string nat
  | Receive nat nat
  | DoCancel string
  | DoCancelAll
  | DoShutdown
  | Check nat
  | ProcessorReturns nat process_result
  | LeakedReturns nat
  | Exit nat

definition remove_nth :: "nat \<Rightarrow> 'a list \<Rightarrow> 'a list" where
  "remove_nth i xs = take i xs @ drop (Suc i) xs"

fun exec :: "action \<Rightarrow> pool \<Rightarrow> pool option" where
  "exec (DoSubmit jobID j) p = Some (snd (Submit p jobID j))"
| "exec (Receive i w) p =
     (if i < length (sending p) \<and> w < length (workers p) \<and> workers p ! w = Idle
      then Some (p\<lparr>sending := remove_nth i (sending p),
                   workers := (workers p)[w := Holding (sending p ! i)]\<rparr>)
      else None)"
| "exec (DoCancel jobID) p = Some (snd (Cancel p jobID))"
| "exec DoCancelAll p = Some (CancelAll p)"
| "exec DoShutdown p = Some (Shutdown p)"
| "exec (Check w) p =
     (if w < length (workers p) then
        (case workers p ! w of
           Holding token \<Rightarrow>
             (if \<not> Canceled_flag (flags p) (cancelFlag token)
              then Some (p\<lparr>workers := (workers p)[w := Processing token]\<rparr>)
              else Some (p\<lparr>workers := (workers p)[w := Idle]\<rparr>))
         | _ \<Rightarrow> None)
      else None)"
| "exec (ProcessorReturns w r) p =
     (if w < length (workers p) then
        (case workers p ! w of
           Processing token \<Rightarrow>
             (if process (flags p) token r
              then Some (p\<lparr>jobStore := DeleteJob (jobStore p) (id_t token),
                           workers := (workers p)[w := Idle],
                           leaked := (if r = JobAbandoned then leaked p @ [token]
                                      else leaked p)\<rparr>)
              else None)
         | _ \<Rightarrow> None)
      else None)"
| "exec (LeakedReturns i) p =
     (if i < length (leaked p) then Some (p\<lparr>leaked := remove_nth i (leaked p)\<rparr>) else None)"
| "exec (Exit w) p =
     (if w < length (workers p) \<and> workers p ! w = Idle \<and> queueClosed p
      then Some (p\<lparr>workers := (workers p)[w := Exited]\<rparr>)
      else None)"

fun run :: "action list \<Rightarrow> pool \<Rightarrow> pool option" where
  "run [] p = Some p"
| "run (a # as) p = (case exec a p of None \<Rightarrow> None | Some p' \<Rightarrow> run as p')"

text \<open>
  The jobs that a worker is executing, and all the jobs whose body is running:
  those of the workers and the abandoned ones.
\<close>

fun processing :: "worker list \<Rightarrow> JobToken list" where
  "processing [] = []"
| "processing (Processing token # ws) = token # processing ws"
| "processing (w # ws) = processing ws"

definition executing :: "pool \<Rightarrow> JobToken list" where
  "executing p = processing (workers p) @ leaked p"

text \<open>
  The executing jobs whose cancel flag is still \<open>Running\<close>: the jobs that have
  been neither canceled nor shut down.
\<close>

definition executing_uncanceled :: "pool \<Rightarrow> JobToken list" where
  "executing_uncanceled p = filter (\<lambda>token. flags p (cancelFlag token) = Running) (executing p)"

text \<open>
  What holds of the tokens at every point of an execution: the flag of every
  token that is being sent, held by a worker or abandoned has been allocated
  (its address is below \<open>nextFlag\<close>), and the flag of an abandoned job is no
  longer \<open>Running\<close>.
\<close>

fun allocated :: "nat \<Rightarrow> worker \<Rightarrow> bool" where
  "allocated n (Holding token) = (cancelFlag token < n)"
| "allocated n (Processing token) = (cancelFlag token < n)"
| "allocated n w = True"

definition tokens_ok :: "pool \<Rightarrow> bool" where
  "tokens_ok p =
     (list_all (\<lambda>token. cancelFlag token < nextFlag p) (sending p) \<and>
      list_all (allocated (nextFlag p)) (workers p) \<and>
      list_all (\<lambda>token. cancelFlag token < nextFlag p \<and> flags p (cancelFlag token) \<noteq> Running)
        (leaked p))"

section \<open>Properties of the version comparison\<close>

lemma string_less_irrefl: "\<not> string_less a a"
  by (induction a) auto

lemma string_less_asym: "string_less a b \<Longrightarrow> \<not> string_less b a"
  by (induction a b rule: string_less.induct) (auto split: if_splits)

lemma compareComponents_Nil2: "compareComponents ts [] = int (length ts)"
  by (cases ts) auto

lemma compareComponents_antisym:
  "sgn (compareComponents a b) = - sgn (compareComponents b a)"
proof (induction a b rule: compareComponents.induct)
  case (1 t ts u us)
  then show ?case
    by (auto split: option.splits dest: string_less_asym)
qed (simp_all add: compareComponents_Nil2 sgn_if)

lemma compareComponents_refl: "compareComponents a a = 0"
  by (induction a) (auto split: option.splits simp: string_less_irrefl)

lemma recursiveCompare_antisym: "recursiveCompare a b = - recursiveCompare b a"
  by (induction a b rule: recursiveCompare.induct) auto

lemma recursivePreReleaseCompare_antisym:
  "recursivePreReleaseCompare a b = - recursivePreReleaseCompare b a"
  by (induction a b rule: recursivePreReleaseCompare.induct)
     (auto split: option.splits dest: string_less_asym)

lemma recursivePreReleaseCompare_refl: "recursivePreReleaseCompare a a = 0"
  by (induction a) (auto split: option.splits simp: string_less_irrefl)

lemma preReleaseCompare_antisym: "preReleaseCompare a b = - preReleaseCompare b a"
  using recursivePreReleaseCompare_antisym
          [of "Split (PreRelease a) CHR ''.''" "Split (PreRelease b) CHR ''.''"]
  by (auto simp: preReleaseCompare_def Let_def)

lemma semver_Compare_antisym: "semver_Compare a b = - semver_Compare b a"
  using recursiveCompare_antisym [of "[Major a, Minor a, Patch a]" "[Major b, Minor b, Patch b]"]
        preReleaseCompare_antisym [of a b]
  by (simp add: semver_Compare_def Let_def del: recursiveCompare.simps)

lemma semver_Compare_refl: "semver_Compare a a = 0"
  by (simp add: semver_Compare_def preReleaseCompare_def Let_def
        recursivePreReleaseCompare_refl)

lemma Compare_semver:
  "NewVersion a = Some x \<Longrightarrow> NewVersion b = Some y \<Longrightarrow> Compare a b s = semver_Compare x y"
  by (simp add: Compare_def)

lemma Compare_components:
  "NewVersion a = None \<or> NewVersion b = None \<Longrightarrow>
   Compare a b s =
     compareComponents (Split (if \<not> s then normalizeForCompare a else a) CHR ''.'')
                       (Split (if \<not> s then normalizeForCompare b else b) CHR ''.'')"
  by (auto simp: Compare_def Let_def split: option.splits)

text \<open>
  C3, as the code has it. Scenario S5 of the version comparison:
  \<open>Compare("1.0.0.0", "1", false) = 0\<close>; \<open>Compare("1.0.0.0", "1", true)\<close> is 3,
  the difference of the numbers of components (four against one) and not its
  sign; \<open>Compare("2.0.1", "2.0.2", false) < 0\<close>; and
  \<open>Compare("1.2.3-beta", "1.2.3", false) < 0\<close>.
\<close>

theorem Compare_S5:
  "Compare ''1.0.0.0'' ''1'' False = 0 \<and>
   Compare ''1.0.0.0'' ''1'' True = 3 \<and>
   Compare ''2.0.1'' ''2.0.2'' False < 0 \<and>
   Compare ''1.2.3-beta'' ''1.2.3'' False < 0"
  by code_simp

text \<open>
  C3, as the claim states it, fails: the strict comparison of \<open>"1.0.0.0"\<close> with
  \<open>"1"\<close> is not 1.
\<close>

theorem Compare_S5_strict_not_1: "Compare ''1.0.0.0'' ''1'' True \<noteq> 1"
  by code_simp

text \<open>
  C4. For all version strings \<open>a\<close> and \<open>b\<close> and both values of the strict flag,
  the sign of \<open>Compare(a, b, strict)\<close> is the opposite of the sign of
  \<open>Compare(b, a, strict)\<close>, and \<open>Compare(a, a, strict) = 0\<close>.
\<close>

theorem Compare_antisymmetric_reflexive:
  "sgn (Compare a b strictSort) = - sgn (Compare b a strictSort) \<and> Compare a a strictSort = 0"
proof
  show "sgn (Compare a b strictSort) = - sgn (Compare b a strictSort)"
  proof (cases "NewVersion a = None \<or> NewVersion b = None")
    case True
    then have True': "NewVersion b = None \<or> NewVersion a = None" by auto
    show ?thesis
      unfolding Compare_components [OF True] Compare_components [OF True']
      by (rule compareComponents_antisym)
  next
    case False
    then obtain x y where xy: "NewVersion a = Some x" "NewVersion b = Some y" by auto
    show ?thesis
      unfolding Compare_semver [OF xy] Compare_semver [OF xy(2) xy(1)]
      using semver_Compare_antisym [of x y] by simp
  qed
  show "Compare a a strictSort = 0"
  proof (cases "NewVersion a")
    case None
    then show ?thesis by (simp add: Compare_components compareComponents_refl)
  next
    case (Some x)
    then show ?thesis by (simp add: Compare_semver semver_Compare_refl)
  qed
qed

theorem Compare_antisymmetric_reflexive_witness:
  "sgn (Compare ''1.0'' ''1.0.1-rc'' True) = - sgn (Compare ''1.0.1-rc'' ''1.0'' True) \<and>
   Compare ''1.0'' ''1.0'' True = 0"
  by (rule Compare_antisymmetric_reflexive)

section \<open>Properties of the document parser\<close>

lemma v20_loop_Some:
  "v20_loop d od b pr m di wd e (map Some steps) acc =
     Inr (acc @ map (v20_plugin d od b pr m di wd e) steps)"
  by (induction steps arbitrary: acc) auto

lemma v20_plugin_fields:
  "PluginState.Name (v20_plugin d od b pr m di wd e s) = Action s"
  "Id (v20_plugin d od b pr m di wd e s) = InstancePluginConfig.Name s"
  "Configuration.Preconditions (Configuration (v20_plugin d od b pr m di wd e s)) =
     InstancePluginConfig.Preconditions s"
  "IsPreconditionEnabled (Configuration (v20_plugin d od b pr m di wd e s)) = e"
  by (simp_all add: v20_plugin_def Let_def zeroConfiguration_def)

lemma parseDocumentContent_v2:
  assumes "DocContent.SchemaVersion doc \<in> set [''2.0'', ''2.0.1'', ''2.0.2'', ''2.0.3'', ''2.2'']"
  shows "parseDocumentContent d doc pinfo =
           parsePluginStateForV20Schema d doc (OrchestrationDir pinfo) (S3Bucket pinfo)
             (S3Prefix pinfo) (DocumentParserInfo.MessageId pinfo) (DocumentId pinfo)
             (DefaultWorkingDir pinfo)"
  using assms by (auto simp: parseDocumentContent_def)

lemma parse_v2_result:
  assumes "DocContent.SchemaVersion doc \<in> set [''2.0'', ''2.0.1'', ''2.0.2'', ''2.0.3'', ''2.2'']"
      and "elems (MainSteps doc) = map Some steps"
  shows "parseDocumentContent d doc pinfo =
           (if steps = [] then Inl (Error ''Unsupported schema format'')
            else Inr (map (v20_plugin d (OrchestrationDir pinfo) (S3Bucket pinfo) (S3Prefix pinfo)
                            (DocumentParserInfo.MessageId pinfo) (DocumentId pinfo)
                            (DefaultWorkingDir pinfo)
                            (isPreconditionEnabled d (DocContent.SchemaVersion doc))) steps))"
  unfolding parseDocumentContent_v2 [OF assms(1)]
  by (simp add: parsePluginStateForV20Schema_def len_def assms(2) v20_loop_Some)

text \<open>
  C2, as the code has it. For a v2.x document (schema version 2.0, 2.0.1, 2.0.2,
  2.0.3 or 2.2) whose \<open>mainSteps\<close> are the steps \<open>s\<^sub>1 \<dots> s\<^sub>n\<close>, none of them a
  \<open>nil\<close> pointer: when \<open>n \<ge> 1\<close> the parser returns exactly \<open>n\<close> plugin states in
  source order, the \<open>i\<close>-th with \<open>Name\<close> the action of \<open>s\<^sub>i\<close>, \<open>Id\<close> its name, and
  its preconditions; when \<open>n = 0\<close> the parser returns no list but the error
  "Unsupported schema format".
\<close>

theorem parse_v2_steps:
  assumes "DocContent.SchemaVersion doc \<in> set [''2.0'', ''2.0.1'', ''2.0.2'', ''2.0.3'', ''2.2'']"
      and "elems (MainSteps doc) = map Some steps"
  shows "\<exists>ps. length ps = length steps \<and>
           (\<forall>i<length steps.
              PluginState.Name (ps ! i) = Action (steps ! i) \<and>
              Id (ps ! i) = InstancePluginConfig.Name (steps ! i) \<and>
              Configuration.Preconditions (Configuration (ps ! i)) =
                InstancePluginConfig.Preconditions (steps ! i)) \<and>
           parseDocumentContent d doc pinfo =
             (if steps = [] then Inl (Error ''Unsupported schema format'') else Inr ps)"
proof -
  let ?mk = "v20_plugin d (OrchestrationDir pinfo) (S3Bucket pinfo) (S3Prefix pinfo)
               (DocumentParserInfo.MessageId pinfo) (DocumentId pinfo) (DefaultWorkingDir pinfo)
               (isPreconditionEnabled d (DocContent.SchemaVersion doc))"
  let ?ps = "map ?mk steps"
  have len: "length ?ps = length steps" by simp
  have fields: "\<forall>i<length steps.
              PluginState.Name (?ps ! i) = Action (steps ! i) \<and>
              Id (?ps ! i) = InstancePluginConfig.Name (steps ! i) \<and>
              Configuration.Preconditions (Configuration (?ps ! i)) =
                InstancePluginConfig.Preconditions (steps ! i)"
    by (simp add: v20_plugin_fields)
  have res: "parseDocumentContent d doc pinfo =
             (if steps = [] then Inl (Error ''Unsupported schema format'') else Inr ?ps)"
    by (rule parse_v2_result [OF assms])
  from len fields res show ?thesis by blast
qed

theorem parse_v2_steps_witness:
  "DocContent.SchemaVersion echoDocument \<in> set [''2.0'', ''2.0.1'', ''2.0.2'', ''2.0.3'', ''2.2''] \<and>
   elems (MainSteps echoDocument) = map Some [pluginLinux, pluginWindows] \<and>
   (\<exists>ps. length ps = 2 \<and>
      PluginState.Name (ps ! 0) = ''aws:runShellScript'' \<and> Id (ps ! 0) = ''pluginLinux'' \<and>
      PluginState.Name (ps ! 1) = ''aws:runPowerShellScript'' \<and> Id (ps ! 1) = ''pluginWindows'' \<and>
      parseDocumentContent example_deps echoDocument example_parserInfo = Inr ps)"
proof -
  have h1: "DocContent.SchemaVersion echoDocument
              \<in> set [''2.0'', ''2.0.1'', ''2.0.2'', ''2.0.3'', ''2.2'']"
    by (simp add: echoDocument_def)
  have h2: "elems (MainSteps echoDocument) = map Some [pluginLinux, pluginWindows]"
    by (simp add: echoDocument_def)
  from parse_v2_steps [OF h1 h2, of example_deps example_parserInfo]
  obtain ps where ps: "length ps = length [pluginLinux, pluginWindows]"
    "\<forall>i<length [pluginLinux, pluginWindows].
              PluginState.Name (ps ! i) = Action ([pluginLinux, pluginWindows] ! i) \<and>
              Id (ps ! i) = InstancePluginConfig.Name ([pluginLinux, pluginWindows] ! i) \<and>
              Configuration.Preconditions (Configuration (ps ! i)) =
                InstancePluginConfig.Preconditions ([pluginLinux, pluginWindows] ! i)"
    "parseDocumentContent example_deps echoDocument example_parserInfo = Inr ps"
    by auto
  from ps(2) have "PluginState.Name (ps ! 0) = ''aws:runShellScript'' \<and> Id (ps ! 0) = ''pluginLinux''"
    by (simp add: pluginLinux_def)
  moreover from ps(2)
  have "PluginState.Name (ps ! 1) = ''aws:runPowerShellScript'' \<and> Id (ps ! 1) = ''pluginWindows''"
    by (simp add: pluginWindows_def)
  ultimately show ?thesis using h1 h2 ps(1,3) by auto
qed

text \<open>
  C2, as the claim states it, fails at \<open>n = 0\<close>: for the schema version 2.2
  document with an empty list of steps the parser returns an error, not a list of
  length 0.
\<close>

theorem parse_v2_no_steps_fails:
  "parseDocumentContent example_deps (echoDocument\<lparr>MainSteps := Slice []\<rparr>) example_parserInfo
     = Inl (Error ''Unsupported schema format'')"
  by (simp add: parseDocumentContent_def parsePluginStateForV20Schema_def echoDocument_def len_def)

text \<open>
  The same holds at the entry point of the parser: whenever \<open>ParseDocument\<close>
  returns plugin states for a v2.x document, the schema gate and the parameter
  substitution have kept the action, the name and the preconditions of every
  step, and the states are those of the steps, in order.
\<close>

lemma replaceMainSteps_keeps:
  "replaceMainSteps d params (map Some steps) = Inr (err, upd) \<Longrightarrow>
   \<exists>steps'. upd = map Some steps' \<and>
     map Action steps' = map Action steps \<and>
     map InstancePluginConfig.Name steps' = map InstancePluginConfig.Name steps \<and>
     map InstancePluginConfig.Preconditions steps' = map InstancePluginConfig.Preconditions steps"
proof (induction steps arbitrary: err upd)
  case Nil
  then show ?case by simp
next
  case (Cons s steps)
  let ?c2 = "s\<lparr>InstancePluginConfig.Settings :=
                   ReplaceParameters d (InstancePluginConfig.Settings s) params,
                InstancePluginConfig.Inputs :=
                   ReplaceParameters d (InstancePluginConfig.Inputs s) params\<rparr>"
  obtain v1 e1 where r1: "Resolve d (InstancePluginConfig.Settings ?c2) = (v1, e1)"
    by (cases "Resolve d (InstancePluginConfig.Settings ?c2)")
  let ?c3 = "?c2\<lparr>InstancePluginConfig.Settings := v1\<rparr>"
  obtain v2 e2 where r2: "Resolve d (InstancePluginConfig.Inputs ?c3) = (v2, e2)"
    by (cases "Resolve d (InstancePluginConfig.Inputs ?c3)")
  let ?c4 = "?c3\<lparr>InstancePluginConfig.Inputs := v2\<rparr>"
  show ?case
  proof (cases "e1 \<noteq> None")
    case True
    with Cons.prems r1 have "upd = map Some (?c3 # steps)"
      by (auto simp: Let_def)
    then show ?thesis by (intro exI [of _ "?c3 # steps"]) simp
  next
    case e1: False
    show ?thesis
    proof (cases "e2 \<noteq> None")
      case True
      with Cons.prems r1 r2 e1 have "upd = map Some (?c4 # steps)"
        by (auto simp: Let_def)
      then show ?thesis by (intro exI [of _ "?c4 # steps"]) simp
    next
      case e2: False
      with Cons.prems r1 r2 e1 obtain rest' where
        rec: "replaceMainSteps d params (map Some steps) = Inr (err, rest')"
        and upd: "upd = Some ?c4 # rest'"
        by (auto simp: Let_def split: sum.splits)
      from Cons.IH [OF rec] obtain steps' where
        s': "rest' = map Some steps'" "map Action steps' = map Action steps"
          "map InstancePluginConfig.Name steps' = map InstancePluginConfig.Name steps"
          "map InstancePluginConfig.Preconditions steps' = map InstancePluginConfig.Preconditions steps"
        by blast
      with upd show ?thesis by (intro exI [of _ "?c4 # steps'"]) simp
    qed
  qed
qed

lemma replaceValidatedPluginParameters_keeps:
  assumes "replaceValidatedPluginParameters d doc params = Inr (err, doc')"
      and "elems (MainSteps doc) = map Some steps"
  shows "DocContent.SchemaVersion doc' = DocContent.SchemaVersion doc \<and>
    (\<exists>steps'. elems (MainSteps doc') = map Some steps' \<and>
     map Action steps' = map Action steps \<and>
     map InstancePluginConfig.Name steps' = map InstancePluginConfig.Name steps \<and>
     map InstancePluginConfig.Preconditions steps' = map InstancePluginConfig.Preconditions steps)"
proof (cases "runtimeConfig_condition (RuntimeConfig doc)")
  case True
  with assms(1) obtain u where "doc' = doc\<lparr>RuntimeConfig := GoMap u\<rparr>"
    by (auto simp: replaceValidatedPluginParameters_def Let_def split: sum.splits)
  with assms(2) show ?thesis by auto
next
  case rc: False
  show ?thesis
  proof (cases "mainSteps_condition (MainSteps doc)")
    case True
    with rc assms obtain u where
      u: "replaceMainSteps d params (map Some steps) = Inr (err, u)"
      and d': "doc' = doc\<lparr>MainSteps := Slice u\<rparr>"
      by (auto simp: replaceValidatedPluginParameters_def Let_def split: sum.splits)
    from replaceMainSteps_keeps [OF u] d' show ?thesis by auto
  next
    case False
    with rc assms(1) have "doc' = doc"
      by (auto simp: replaceValidatedPluginParameters_def Let_def)
    with assms(2) show ?thesis by auto
  qed
qed

lemma getValidatedParameters_keeps:
  assumes "getValidatedParameters d params doc = Inr (None, doc')"
      and "elems (MainSteps doc) = map Some steps"
  shows "DocContent.SchemaVersion doc' = DocContent.SchemaVersion doc \<and>
    (\<exists>steps'. elems (MainSteps doc') = map Some steps' \<and>
     map Action steps' = map Action steps \<and>
     map InstancePluginConfig.Name steps' = map InstancePluginConfig.Name steps \<and>
     map InstancePluginConfig.Preconditions steps' = map InstancePluginConfig.Preconditions steps)"
proof -
  from assms(1) obtain vp where
    "replaceValidatedPluginParameters d doc vp = Inr (None, doc')"
    by (auto simp: getValidatedParameters_def split: sum.splits option.splits)
  from replaceValidatedPluginParameters_keeps [OF this assms(2)] show ?thesis .
qed

corollary ParseDocument_v2_steps:
  assumes "DocContent.SchemaVersion doc \<in> set [''2.0'', ''2.0.1'', ''2.0.2'', ''2.0.3'', ''2.2'']"
      and "elems (MainSteps doc) = map Some steps"
      and "fst (DocContent_ParseDocument d doc docInfo pinfo params) = Inr ps"
  shows "steps \<noteq> [] \<and>
         map PluginState.Name ps = map Action steps \<and>
         map Id ps = map InstancePluginConfig.Name steps \<and>
         map (\<lambda>p. Configuration.Preconditions (Configuration p)) ps =
           map InstancePluginConfig.Preconditions steps"
proof -
  from assms(3) obtain doc' where
    g: "getValidatedParameters d params doc = Inr (None, doc')"
    and p: "parseDocumentContent d doc' pinfo = Inr ps"
    by (auto simp: DocContent_ParseDocument_def split: option.splits sum.splits prod.splits)
  from getValidatedParameters_keeps [OF g assms(2)] obtain steps' where
    s': "DocContent.SchemaVersion doc' = DocContent.SchemaVersion doc"
      "elems (MainSteps doc') = map Some steps'"
      "map Action steps' = map Action steps"
      "map InstancePluginConfig.Name steps' = map InstancePluginConfig.Name steps"
      "map InstancePluginConfig.Preconditions steps' = map InstancePluginConfig.Preconditions steps"
    by blast
  from assms(1) s'(1) have sv: "DocContent.SchemaVersion doc'
      \<in> set [''2.0'', ''2.0.1'', ''2.0.2'', ''2.0.3'', ''2.2'']" by simp
  from p parse_v2_result [OF sv s'(2), of d pinfo]
  have ne: "steps' \<noteq> []" and ps: "ps = map (v20_plugin d (OrchestrationDir pinfo) (S3Bucket pinfo) (S3Prefix pinfo)
                            (DocumentParserInfo.MessageId pinfo) (DocumentId pinfo)
                            (DefaultWorkingDir pinfo)
                            (isPreconditionEnabled d (DocContent.SchemaVersion doc'))) steps'"
    by (auto split: if_splits)
  from ne s'(3) have "steps \<noteq> []" by auto
  moreover from ps s'(3,4,5) have "map PluginState.Name ps = map Action steps"
    "map Id ps = map InstancePluginConfig.Name steps"
    "map (\<lambda>p. Configuration.Preconditions (Configuration p)) ps =
           map InstancePluginConfig.Preconditions steps"
    by (simp_all add: v20_plugin_fields comp_def)
  ultimately show ?thesis by simp
qed

lemma v20_loop_flag:
  "v20_loop d od b pr m di wd e steps acc = Inr ps \<Longrightarrow> p \<in> set ps \<Longrightarrow>
   p \<in> set acc \<or> IsPreconditionEnabled (Configuration p) = e"
proof (induction steps arbitrary: acc)
  case Nil
  then show ?case by simp
next
  case (Cons s steps)
  then show ?case
    by (cases s) (auto simp: v20_plugin_def Let_def zeroConfiguration_def dest!: Cons.IH)
qed

lemma isPreconditionEnabled_Compare:
  "isPreconditionEnabled d sv = (0 \<le> Compare sv ''2.2'' (compareStrict d))"
  by (simp add: isPreconditionEnabled_def VersionCompare_def preconditionSchemaVersion_def)

lemma Compare_v2_versions:
  "sv \<in> set [''2.0'', ''2.0.1'', ''2.0.2'', ''2.0.3'', ''2.2''] \<Longrightarrow>
   (0 \<le> Compare sv ''2.2'' s) = (sv = ''2.2'')"
proof -
  have a: "Compare ''2.0'' ''2.2'' True = - 1" "Compare ''2.0'' ''2.2'' False = - 1"
    "Compare ''2.0.1'' ''2.2'' True = - 1" "Compare ''2.0.1'' ''2.2'' False = - 1"
    "Compare ''2.0.2'' ''2.2'' True = - 1" "Compare ''2.0.2'' ''2.2'' False = - 1"
    "Compare ''2.0.3'' ''2.2'' True = - 1" "Compare ''2.0.3'' ''2.2'' False = - 1"
    "Compare ''2.2'' ''2.2'' True = 0" "Compare ''2.2'' ''2.2'' False = 0"
    by code_simp+
  assume "sv \<in> set [''2.0'', ''2.0.1'', ''2.0.2'', ''2.0.3'', ''2.2'']"
  then show ?thesis using a by (cases s) auto
qed

text \<open>
  C6. For a v2.x document, every plugin state that the parser returns has
  \<open>IsPreconditionEnabled\<close> equal to \<open>schemaVersion \<ge> "2.2"\<close> under the version
  comparator \<open>Compare\<close> (with either strictness), which on these schema versions
  means that the version is 2.2. In particular the schema version 2.2 document
  with the two steps \<open>pluginLinux\<close> and \<open>pluginWindows\<close> gives two plugin states
  with those ids and actions, both with the flag set and with their
  preconditions.
\<close>

theorem precondition_enabled:
  "(DocContent.SchemaVersion doc \<in> set [''2.0'', ''2.0.1'', ''2.0.2'', ''2.0.3'', ''2.2''] \<longrightarrow>
    parseDocumentContent d doc pinfo = Inr ps \<longrightarrow> p \<in> set ps \<longrightarrow>
      IsPreconditionEnabled (Configuration p) =
        (0 \<le> Compare (DocContent.SchemaVersion doc) ''2.2'' (compareStrict d)) \<and>
      IsPreconditionEnabled (Configuration p) = (DocContent.SchemaVersion doc = ''2.2'')) \<and>
   (\<exists>p1 p2. parseDocumentContent d echoDocument pinfo = Inr [p1, p2] \<and>
      Id p1 = ''pluginLinux'' \<and> PluginState.Name p1 = ''aws:runShellScript'' \<and>
      IsPreconditionEnabled (Configuration p1) \<and>
      Configuration.Preconditions (Configuration p1) =
        GoMap [(''StringEquals'', [''platformType'', ''Linux''])] \<and>
      Id p2 = ''pluginWindows'' \<and> PluginState.Name p2 = ''aws:runPowerShellScript'' \<and>
      IsPreconditionEnabled (Configuration p2) \<and>
      Configuration.Preconditions (Configuration p2) =
        GoMap [(''StringEquals'', [''platformType'', ''Windows''])])"
proof (intro conjI impI)
  assume sv: "DocContent.SchemaVersion doc \<in> set [''2.0'', ''2.0.1'', ''2.0.2'', ''2.0.3'', ''2.2'']"
     and res: "parseDocumentContent d doc pinfo = Inr ps" and p: "p \<in> set ps"
  from res have "v20_loop d (OrchestrationDir pinfo) (S3Bucket pinfo) (S3Prefix pinfo)
      (DocumentParserInfo.MessageId pinfo) (DocumentId pinfo) (DefaultWorkingDir pinfo)
      (isPreconditionEnabled d (DocContent.SchemaVersion doc)) (elems (MainSteps doc)) [] = Inr ps"
    unfolding parseDocumentContent_v2 [OF sv]
    by (simp add: parsePluginStateForV20Schema_def split: if_splits)
  from v20_loop_flag [OF this p]
  show e: "IsPreconditionEnabled (Configuration p) =
        (0 \<le> Compare (DocContent.SchemaVersion doc) ''2.2'' (compareStrict d))"
    by (simp add: isPreconditionEnabled_Compare)
  show "IsPreconditionEnabled (Configuration p) = (DocContent.SchemaVersion doc = ''2.2'')"
    unfolding e by (rule Compare_v2_versions [OF sv])
next
  have sv: "DocContent.SchemaVersion echoDocument
              \<in> set [''2.0'', ''2.0.1'', ''2.0.2'', ''2.0.3'', ''2.2'']"
    by (simp add: echoDocument_def)
  have en: "isPreconditionEnabled d (DocContent.SchemaVersion echoDocument)"
    unfolding isPreconditionEnabled_Compare Compare_v2_versions [OF sv]
    by (simp add: echoDocument_def)
  let ?mk = "v20_plugin d (OrchestrationDir pinfo) (S3Bucket pinfo) (S3Prefix pinfo)
               (DocumentParserInfo.MessageId pinfo) (DocumentId pinfo) (DefaultWorkingDir pinfo)
               True"
  have "parseDocumentContent d echoDocument pinfo = Inr [?mk pluginLinux, ?mk pluginWindows]"
    unfolding parseDocumentContent_v2 [OF sv]
    using en v20_loop_Some [of d _ _ _ _ _ _ True "[pluginLinux, pluginWindows]" "[]"]
    by (simp add: parsePluginStateForV20Schema_def len_def echoDocument_def)
  then show "\<exists>p1 p2. parseDocumentContent d echoDocument pinfo = Inr [p1, p2] \<and>
      Id p1 = ''pluginLinux'' \<and> PluginState.Name p1 = ''aws:runShellScript'' \<and>
      IsPreconditionEnabled (Configuration p1) \<and>
      Configuration.Preconditions (Configuration p1) =
        GoMap [(''StringEquals'', [''platformType'', ''Linux''])] \<and>
      Id p2 = ''pluginWindows'' \<and> PluginState.Name p2 = ''aws:runPowerShellScript'' \<and>
      IsPreconditionEnabled (Configuration p2) \<and>
      Configuration.Preconditions (Configuration p2) =
        GoMap [(''StringEquals'', [''platformType'', ''Windows''])]"
    by (simp add: v20_plugin_fields pluginLinux_def pluginWindows_def)
qed


theorem precondition_enabled_witness:
  "DocContent.SchemaVersion echoDocument \<in> set [''2.0'', ''2.0.1'', ''2.0.2'', ''2.0.3'', ''2.2''] \<and>
   (\<exists>ps p. parseDocumentContent example_deps echoDocument example_parserInfo = Inr ps \<and>
      p \<in> set ps \<and> IsPreconditionEnabled (Configuration p) \<and>
      0 \<le> Compare (DocContent.SchemaVersion echoDocument) ''2.2'' (compareStrict example_deps))"
proof -
  have sv: "DocContent.SchemaVersion echoDocument
              \<in> set [''2.0'', ''2.0.1'', ''2.0.2'', ''2.0.3'', ''2.2'']"
    by (simp add: echoDocument_def)
  have v: "DocContent.SchemaVersion echoDocument = ''2.2''"
    by (simp add: echoDocument_def)
  obtain p1 p2 where
    res: "parseDocumentContent example_deps echoDocument example_parserInfo = Inr [p1, p2]"
    using precondition_enabled [of echoDocument example_deps example_parserInfo] by blast
  have p: "p1 \<in> set [p1, p2]" by simp
  have "IsPreconditionEnabled (Configuration p1) =
          (0 \<le> Compare (DocContent.SchemaVersion echoDocument) ''2.2'' (compareStrict example_deps)) \<and>
        IsPreconditionEnabled (Configuration p1) = (DocContent.SchemaVersion echoDocument = ''2.2'')"
    using precondition_enabled [of echoDocument example_deps example_parserInfo "[p1, p2]" p1]
          sv res p
    by blast
  with v
  have "IsPreconditionEnabled (Configuration p1) \<and>
        0 \<le> Compare (DocContent.SchemaVersion echoDocument) ''2.2'' (compareStrict example_deps)"
    by blast
  with sv res p show ?thesis by blast
qed

text \<open>
  C9, as the code has it. The conditional \<open>mainSteps != nil || len(mainSteps) != 0\<close>
  of \<open>replaceValidatedPluginParameters\<close> is true exactly when \<open>mainSteps\<close> is not
  the \<open>nil\<close> slice: it is true for every other slice, the empty one among them,
  and false for \<open>nil\<close>.
\<close>

theorem mainSteps_condition_iff:
  "mainSteps_condition mainSteps = (mainSteps \<noteq> NilSlice)"
  by (cases mainSteps) (simp_all add: mainSteps_condition_def len_def)

theorem mainSteps_condition_iff_witness:
  "mainSteps_condition (Slice []) \<and> mainSteps_condition (Slice [Some pluginLinux])"
  using mainSteps_condition_iff [of "Slice []"]
        mainSteps_condition_iff [of "Slice [Some pluginLinux]"]
  by simp

text \<open>
  C9, as the claim states it, fails: the conditional is false for the \<open>nil\<close>
  slice.
\<close>

theorem mainSteps_condition_nil: "\<not> mainSteps_condition NilSlice"
  by (simp add: mainSteps_condition_def len_def)

text \<open>
  C10. \<open>ParseDocument\<close> of a session document never fails: it returns exactly
  one plugin state, whose \<open>Name\<close> and \<open>Id\<close> are the name of the standard-stream
  plugin and whose configuration takes the session id and the client id from
  the \<open>DocumentID\<close> and \<open>ClientId\<close> of the document information and everything
  else from the parser information; the result is the same for every session
  document and for all parameters.
\<close>

theorem session_ParseDocument:
  "(\<exists>p. SessionDocContent_ParseDocument d content docInfo parserInfo params = Inr [p] \<and>
      PluginState.Name p = PluginNameStandardStream d \<and>
      Id p = PluginNameStandardStream d \<and>
      Configuration p = zeroConfiguration
        \<lparr>Configuration.MessageId := DocumentParserInfo.MessageId parserInfo,
         BookKeepingFileName := DocumentId parserInfo,
         PluginName := PluginNameStandardStream d,
         PluginID := PluginNameStandardStream d,
         DefaultWorkingDirectory := DefaultWorkingDir parserInfo,
         SessionId := DocumentID docInfo,
         OutputS3KeyPrefix := S3Prefix parserInfo,
         OutputS3BucketName := S3Bucket parserInfo,
         Configuration.S3EncryptionEnabled := DocumentParserInfo.S3EncryptionEnabled parserInfo,
         OrchestrationDirectory :=
           BuildPath d (OrchestrationDir parserInfo) (PluginNameStandardStream d),
         Configuration.ClientId := DocumentInfo.ClientId docInfo,
         CloudWatchLogGroup := LogGroupName (CloudWatchConfig parserInfo),
         CloudWatchEncryptionEnabled :=
           LogGroupEncryptionEnabled (CloudWatchConfig parserInfo)\<rparr>) \<and>
   SessionDocContent_ParseDocument d content' docInfo parserInfo params' =
     SessionDocContent_ParseDocument d content docInfo parserInfo params"
  by (simp add: SessionDocContent_ParseDocument_def parsePluginStateForStartSession_def Let_def)

theorem session_ParseDocument_witness:
  "SessionDocContent_ParseDocument example_deps
     \<lparr>SessionDocContent.SchemaVersion = ''1.0'', SessionDocContent.Description = ''session'',
      SessionType = ''Standard_Stream'', SessionDocContent.Inputs = AString ''ignored''\<rparr>
     \<lparr>DocumentID = ''session-1'', DocumentInfo.ClientId = ''client-1''\<rparr>
     example_parserInfo [(''p'', AString ''v'')] =
   SessionDocContent_ParseDocument example_deps
     \<lparr>SessionDocContent.SchemaVersion = ''1.0'', SessionDocContent.Description = [],
      SessionType = [], SessionDocContent.Inputs = ANil\<rparr>
     \<lparr>DocumentID = ''session-1'', DocumentInfo.ClientId = ''client-1''\<rparr>
     example_parserInfo []"
  using session_ParseDocument
          [of example_deps
              "\<lparr>SessionDocContent.SchemaVersion = ''1.0'', SessionDocContent.Description = [],
                SessionType = [], SessionDocContent.Inputs = ANil\<rparr>"
              "\<lparr>DocumentID = ''session-1'', DocumentInfo.ClientId = ''client-1''\<rparr>"
              example_parserInfo "[]"
              "\<lparr>SessionDocContent.SchemaVersion = ''1.0'', SessionDocContent.Description = ''session'',
                SessionType = ''Standard_Stream'', SessionDocContent.Inputs = AString ''ignored''\<rparr>"
              "[(''p'', AString ''v'')]"]
  by blast

lemma Split_append_sep:
  "sep \<notin> set x \<Longrightarrow> Split (x @ sep # y) sep = x # Split y sep"
  by (induction x) auto

lemma Split_no_sep: "sep \<notin> set s \<Longrightarrow> Split s sep = [s]"
  by (induction s) auto

lemma TrimSuffix_append: "TrimSuffix (a @ b) b = a"
  by (simp add: TrimSuffix_def)

lemma lastElement_append:
  assumes "CHR ''/'' \<notin> set v"
  shows "lastElement (name @ CHR '':'' # v) = lastElement name @ CHR '':'' # v"
proof -
  have "takeWhile (\<lambda>c. c \<noteq> CHR ''/'') (rev v @ CHR '':'' # rev name)
          = rev v @ CHR '':'' # takeWhile (\<lambda>c. c \<noteq> CHR ''/'') (rev name)"
  proof -
    have "\<And>x. x \<in> set (rev v) \<Longrightarrow> x \<noteq> CHR ''/''" using assms by auto
    from takeWhile_append2 [of "rev v" "\<lambda>c. c \<noteq> CHR ''/''", OF this]
    show ?thesis by simp
  qed
  then show ?thesis by (simp add: lastElement_def)
qed

lemma dropWhile_slash:
  assumes "CHR ''/'' \<notin> set v"
  shows "dropWhile (\<lambda>c. c = CHR ''/'') (rev (name @ CHR '':'' # v)) = rev (name @ CHR '':'' # v)"
proof (cases v rule: rev_cases)
  case Nil
  then show ?thesis by simp
next
  case (snoc ys y)
  with assms have "y \<noteq> CHR ''/''" by auto
  with snoc show ?thesis by simp
qed

lemma Base_name_version:
  assumes "CHR ''/'' \<notin> set v"
  shows "Base (name @ CHR '':'' # v) = lastElement name @ CHR '':'' # v"
  unfolding Base_def Let_def dropWhile_slash [OF assms] rev_rev_ident
            lastElement_append [OF assms]
  by simp

text \<open>
  C5, as the code has it. For every name whose last path element (what follows
  its last \<open>/\<close>) has no \<open>:\<close> and every version with neither \<open>:\<close> nor \<open>/\<close> in it,
  \<open>ParseDocumentNameAndVersion(name + ":" + ver)\<close> returns \<open>(name, ver)\<close>; and
  \<open>ParseDocumentNameAndVersion("")\<close> returns two empty strings.
\<close>

theorem ParseDocumentNameAndVersion_roundtrip:
  assumes "CHR '':'' \<notin> set (lastElement name)"
      and "CHR '':'' \<notin> set ver"
      and "CHR ''/'' \<notin> set ver"
  shows "ParseDocumentNameAndVersion (name @ '':'' @ ver) = (name, ver) \<and>
         ParseDocumentNameAndVersion [] = ([], [])"
proof
  have sp: "Split (lastElement name @ CHR '':'' # ver) CHR '':'' = [lastElement name, ver]"
    by (simp add: Split_append_sep [OF assms(1)] Split_no_sep [OF assms(2)])
  have tr: "TrimSuffix (name @ CHR '':'' # ver) (CHR '':'' # ver) = name"
    using TrimSuffix_append [of name "CHR '':'' # ver"] by simp
  show "ParseDocumentNameAndVersion (name @ '':'' @ ver) = (name, ver)"
    by (simp add: ParseDocumentNameAndVersion_def Let_def Base_name_version [OF assms(3)] sp tr)
  show "ParseDocumentNameAndVersion [] = ([], [])"
    by (simp add: ParseDocumentNameAndVersion_def)
qed

theorem ParseDocumentNameAndVersion_roundtrip_witness:
  "CHR '':'' \<notin> set (lastElement ''arn:aws:ssm:us-east-1:1234567890:document/NameOfDoc'') \<and>
   CHR '':'' \<notin> set ''2'' \<and> CHR ''/'' \<notin> set ''2'' \<and>
   ParseDocumentNameAndVersion (''arn:aws:ssm:us-east-1:1234567890:document/NameOfDoc'' @ '':'' @ ''2'')
     = (''arn:aws:ssm:us-east-1:1234567890:document/NameOfDoc'', ''2'')"
proof -
  have h1: "CHR '':'' \<notin> set (lastElement ''arn:aws:ssm:us-east-1:1234567890:document/NameOfDoc'')"
    by (simp add: lastElement_def)
  have h2: "CHR '':'' \<notin> set ''2''" by simp
  have h3: "CHR ''/'' \<notin> set ''2''" by simp
  from ParseDocumentNameAndVersion_roundtrip [OF h1 h2 h3] h1 h2 h3
  show ?thesis by blast
qed

text \<open>
  C5, as the claim states it, fails: the names \<open>"a:b"\<close> and \<open>"a"\<close> have no
  trailing \<open>:\<close>; with the name \<open>"a:b"\<close> and the version \<open>"1"\<close> the function
  returns \<open>("a:b:1", "b")\<close>, not \<open>("a:b", "1")\<close>, and with the name \<open>"a"\<close> and
  the version \<open>"1:2"\<close> it returns \<open>("a:1:2", "1")\<close>, not \<open>("a", "1:2")\<close>.
\<close>

theorem ParseDocumentNameAndVersion_colon_in_version:
  "last ''a:b'' \<noteq> CHR '':'' \<and>
   ParseDocumentNameAndVersion (''a:b'' @ '':'' @ ''1'') = (''a:b:1'', ''b'') \<and>
   ParseDocumentNameAndVersion (''a:b'' @ '':'' @ ''1'') \<noteq> (''a:b'', ''1'') \<and>
   last ''a'' \<noteq> CHR '':'' \<and>
   ParseDocumentNameAndVersion (''a'' @ '':'' @ ''1:2'') = (''a:1:2'', ''1'') \<and>
   ParseDocumentNameAndVersion (''a'' @ '':'' @ ''1:2'') \<noteq> (''a'', ''1:2'')"
  by (simp add: ParseDocumentNameAndVersion_def Base_def lastElement_def TrimSuffix_def Let_def)

section \<open>Properties of the pool\<close>

lemma GetJob_DeleteJob: "GetJob (DeleteJob js jobID) jobID = None"
  by (induction js) (auto simp: GetJob_def DeleteJob_def)

lemma Cancel_found:
  "GetJob (jobStore p) jobID = Some t \<Longrightarrow>
   Cancel p jobID =
     (True, p\<lparr>jobStore := DeleteJob (jobStore p) jobID,
              flags := Set_flag (flags p) (cancelFlag t) Canceled\<rparr>)"
  by (simp add: Cancel_def Let_def)

lemma Cancel_not_found: "GetJob (jobStore p) jobID = None \<Longrightarrow> Cancel p jobID = (False, p)"
  by (simp add: Cancel_def)

lemma Cancel_removes: "\<not> HasJob (snd (Cancel p jobID)) jobID"
  by (cases "GetJob (jobStore p) jobID")
     (simp_all add: Cancel_found Cancel_not_found HasJob_def GetJob_DeleteJob)

text \<open>
  C7. \<open>Cancel(id)\<close> returns true if and only if the job store holds \<open>id\<close> when it
  is called. When it does, with token \<open>t\<close>, the token is deleted first, which
  leaves a pool without \<open>id\<close> and with the flags as they were, and the flag of
  \<open>t\<close> is set to \<open>Canceled\<close> in that pool; a flag that was running is canceled
  afterwards. A second \<open>Cancel(id)\<close> returns false, and so does the \<open>Cancel\<close> of an
  id that the store does not hold.
\<close>

theorem Cancel_iff_present:
  "fst (Cancel p jobID) = HasJob p jobID \<and>
   \<not> HasJob (snd (Cancel p jobID)) jobID \<and>
   fst (Cancel (snd (Cancel p jobID)) jobID) = False \<and>
   (\<forall>t. GetJob (jobStore p) jobID = Some t \<longrightarrow>
      \<not> HasJob (p\<lparr>jobStore := DeleteJob (jobStore p) jobID\<rparr>) jobID \<and>
      flags (p\<lparr>jobStore := DeleteJob (jobStore p) jobID\<rparr>) = flags p \<and>
      snd (Cancel p jobID) =
        (p\<lparr>jobStore := DeleteJob (jobStore p) jobID\<rparr>)
          \<lparr>flags := Set_flag (flags (p\<lparr>jobStore := DeleteJob (jobStore p) jobID\<rparr>))
                      (cancelFlag t) Canceled\<rparr> \<and>
      (flags p (cancelFlag t) = Running \<longrightarrow>
         flags (snd (Cancel p jobID)) (cancelFlag t) = Canceled))"
proof (intro conjI allI impI)
  show "fst (Cancel p jobID) = HasJob p jobID"
    by (cases "GetJob (jobStore p) jobID")
       (simp_all add: Cancel_found Cancel_not_found HasJob_def)
  show r: "\<not> HasJob (snd (Cancel p jobID)) jobID"
    by (rule Cancel_removes)
  from r show "fst (Cancel (snd (Cancel p jobID)) jobID) = False"
    by (simp add: HasJob_def Cancel_not_found)
next
  fix t
  assume t: "GetJob (jobStore p) jobID = Some t"
  show "\<not> HasJob (p\<lparr>jobStore := DeleteJob (jobStore p) jobID\<rparr>) jobID"
    by (simp add: HasJob_def GetJob_DeleteJob)
  show "flags (p\<lparr>jobStore := DeleteJob (jobStore p) jobID\<rparr>) = flags p"
    by simp
  show "snd (Cancel p jobID) =
        (p\<lparr>jobStore := DeleteJob (jobStore p) jobID\<rparr>)
          \<lparr>flags := Set_flag (flags (p\<lparr>jobStore := DeleteJob (jobStore p) jobID\<rparr>))
                      (cancelFlag t) Canceled\<rparr>"
    by (simp add: Cancel_found [OF t])
  assume "flags p (cancelFlag t) = Running"
  then show "flags (snd (Cancel p jobID)) (cancelFlag t) = Canceled"
    by (simp add: Cancel_found [OF t] Set_flag_def)
qed

theorem Cancel_iff_present_witness:
  "GetJob (jobStore (snd (Submit (NewPool 2 100) ''job-1'' 7))) ''job-1''
     = Some \<lparr>id_t = ''job-1'', job = 7, cancelFlag = 0\<rparr> \<and>
   flags (snd (Submit (NewPool 2 100) ''job-1'' 7)) 0 = Running \<and>
   fst (Cancel (snd (Submit (NewPool 2 100) ''job-1'' 7)) ''job-1'') \<and>
   flags (snd (Cancel (snd (Submit (NewPool 2 100) ''job-1'' 7)) ''job-1'')) 0 = Canceled \<and>
   \<not> fst (Cancel (snd (Cancel (snd (Submit (NewPool 2 100) ''job-1'' 7)) ''job-1'')) ''job-1'')"
proof -
  let ?p = "snd (Submit (NewPool 2 100) ''job-1'' 7)"
  have g: "GetJob (jobStore ?p) ''job-1'' = Some \<lparr>id_t = ''job-1'', job = 7, cancelFlag = 0\<rparr>"
    by (simp add: Submit_def NewPool_def NewJobStore_def AddJob_def GetJob_def Let_def)
  have f: "flags ?p (cancelFlag \<lparr>id_t = ''job-1'', job = 7, cancelFlag = 0\<rparr>) = Running"
    by (simp add: Submit_def NewPool_def NewJobStore_def AddJob_def Let_def)
  have h: "HasJob ?p ''job-1''"
    using g by (simp add: HasJob_def)
  from Cancel_iff_present [of ?p "''job-1''"] g f h
  have "fst (Cancel ?p ''job-1'') \<and>
        flags (snd (Cancel ?p ''job-1''))
          (cancelFlag \<lparr>id_t = ''job-1'', job = 7, cancelFlag = 0\<rparr>) = Canceled \<and>
        \<not> fst (Cancel (snd (Cancel ?p ''job-1'')) ''job-1'')"
    by blast
  with g f show ?thesis by simp
qed

lemma Submit_closed_queue:
  "queueClosed p \<Longrightarrow> \<not> HasJob p jobID \<Longrightarrow>
   fst (Submit p jobID j) = Panics SendOnClosedChannel \<and> HasJob (snd (Submit p jobID j)) jobID"
  by (simp add: Submit_def HasJob_def GetJob_def AddJob_def Let_def)

lemma Shutdown_closes:
  "(isShutdown p \<longrightarrow> queueClosed p) \<Longrightarrow>
   queueClosed (Shutdown p) \<and> isShutdown (Shutdown p) \<and> jobStore (Shutdown p) = []"
  by (auto simp: Shutdown_def ShutDownAll_def DeleteAllJobs_def Let_def)

lemma exec_shutdown_closed:
  "exec a p = Some p' \<Longrightarrow> (isShutdown p \<longrightarrow> queueClosed p) \<Longrightarrow>
   (isShutdown p' \<longrightarrow> queueClosed p')"
  by (cases a)
     (auto simp: Submit_def Cancel_def CancelAll_def Shutdown_def ShutDownAll_def
           DeleteAllJobs_def Let_def
           split: if_splits worker.splits sum.splits option.splits)

lemma run_shutdown_closed:
  "run as p = Some p' \<Longrightarrow> (isShutdown p \<longrightarrow> queueClosed p) \<Longrightarrow>
   (isShutdown p' \<longrightarrow> queueClosed p')"
proof (induction as arbitrary: p)
  case Nil
  then show ?case by simp
next
  case (Cons a as)
  then obtain q where q: "exec a p = Some q" and r: "run as q = Some p'"
    by (auto split: option.splits)
  from exec_shutdown_closed [OF q Cons.prems(2)] Cons.IH [OF r] show ?case by blast
qed

text \<open>
  After \<open>Shutdown\<close> of a pool, at whatever point of an execution, \<open>Submit\<close> with any
  job id stores the token and then panics in the send on the closed queue.
\<close>

lemma Submit_after_Shutdown:
  assumes "run as (NewPool maxParallel cancelWaitDuration) = Some p"
  shows "fst (Submit (Shutdown p) jobID j) = Panics SendOnClosedChannel \<and>
         HasJob (snd (Submit (Shutdown p) jobID j)) jobID"
proof -
  have "isShutdown (NewPool maxParallel cancelWaitDuration)
          \<longrightarrow> queueClosed (NewPool maxParallel cancelWaitDuration)"
    by (simp add: NewPool_def)
  from Shutdown_closes [OF run_shutdown_closed [OF assms this]]
  have c: "queueClosed (Shutdown p)" and n: "\<not> HasJob (Shutdown p) jobID"
    by (simp_all add: HasJob_def GetJob_def)
  from Submit_closed_queue [OF c n] show ?thesis .
qed

text \<open>
  C1 says that on a pool whose \<open>Shutdown\<close> has completed, \<open>Submit\<close> with a fresh
  job id returns the \<open>PoolShutDown\<close> error without a panic and leaves the job
  out of the job store. The code does otherwise: after \<open>Shutdown\<close> of a new
  pool, \<open>Submit\<close> with a fresh job id stores the token and then panics in the
  send on the closed queue; it returns no error, and the job stays in the job
  store.
\<close>

theorem Submit_after_Shutdown_panics:
  "fst (Submit (Shutdown (NewPool 2 100)) ''job-1'' 7) = Panics SendOnClosedChannel \<and>
   fst (Submit (Shutdown (NewPool 2 100)) ''job-1'' 7) \<noteq> Returns (Some PoolShutDown) \<and>
   HasJob (snd (Submit (Shutdown (NewPool 2 100)) ''job-1'' 7)) ''job-1''"
proof -
  have "run [] (NewPool 2 100) = Some (NewPool 2 100)" by simp
  from Submit_after_Shutdown [OF this, of "''job-1''" 7] show ?thesis by simp
qed

lemma Submit_workers: "workers (snd (Submit p jobID j)) = workers p"
  by (simp add: Submit_def Let_def split: sum.splits)

lemma Cancel_workers: "workers (snd (Cancel p jobID)) = workers p"
  by (simp add: Cancel_def Let_def split: option.splits)

lemma CancelAll_workers: "workers (CancelAll p) = workers p"
  by (simp add: CancelAll_def Let_def split: prod.splits)

lemma Shutdown_workers: "workers (Shutdown p) = workers p"
  by (simp add: Shutdown_def ShutDownAll_def Let_def split: prod.splits)

lemma exec_workers_length:
  "exec a p = Some p' \<Longrightarrow> length (workers p') = length (workers p)"
  by (cases a)
     (auto simp: Submit_workers Cancel_workers CancelAll_workers Shutdown_workers
           split: if_splits worker.splits)

lemma run_workers_length:
  "run as p = Some p' \<Longrightarrow> length (workers p') = length (workers p)"
proof (induction as arbitrary: p)
  case Nil
  then show ?case by simp
next
  case (Cons a as)
  then obtain q where q: "exec a p = Some q" and r: "run as q = Some p'"
    by (auto split: option.splits)
  from Cons.IH [OF r] exec_workers_length [OF q] show ?case by simp
qed

lemma processing_length: "length (processing ws) \<le> length ws"
  by (induction ws rule: processing.induct) auto

lemma Set_flag_keeps: "fs g \<noteq> Running \<Longrightarrow> Set_flag fs f state g \<noteq> Running"
  by (auto simp: Set_flag_def)

lemma set_all_keeps: "fs g \<noteq> Running \<Longrightarrow> set_all fs jobs state g \<noteq> Running"
  by (induction jobs arbitrary: fs) (simp_all add: Set_flag_keeps)

lemma list_all_remove_nth: "list_all P xs \<Longrightarrow> list_all P (remove_nth i xs)"
  by (auto simp: remove_nth_def list_all_iff dest: in_set_takeD in_set_dropD)

lemma list_all_update: "list_all P xs \<Longrightarrow> P x \<Longrightarrow> list_all P (xs[i := x])"
  by (auto simp: list_all_iff dest: subsetD [OF set_update_subset_insert])

lemma list_all_nth: "list_all P xs \<Longrightarrow> i < length xs \<Longrightarrow> P (xs ! i)"
  by (simp add: list_all_length)

lemma allocated_Suc: "allocated n w \<Longrightarrow> allocated (Suc n) w"
  by (cases w) auto

lemma Submit_tokens_ok: "tokens_ok p \<Longrightarrow> tokens_ok (snd (Submit p jobID j))"
proof -
  assume ok: "tokens_ok p"
  let ?fs = "(flags p)(nextFlag p := Running)"
  from ok have s: "list_all (\<lambda>token. cancelFlag token < Suc (nextFlag p)) (sending p)"
    by (auto simp: tokens_ok_def list_all_iff)
  from ok have w: "list_all (allocated (Suc (nextFlag p))) (workers p)"
    by (auto simp: tokens_ok_def list_all_iff allocated_Suc)
  from ok have l: "list_all (\<lambda>token. cancelFlag token < Suc (nextFlag p) \<and>
                      ?fs (cancelFlag token) \<noteq> Running) (leaked p)"
    by (auto simp: tokens_ok_def list_all_iff)
  from s w l show ?thesis
    by (simp add: Submit_def tokens_ok_def Let_def split: sum.splits)
qed

lemma Cancel_fields:
  "nextFlag (snd (Cancel p jobID)) = nextFlag p"
  "sending (snd (Cancel p jobID)) = sending p"
  "workers (snd (Cancel p jobID)) = workers p"
  "leaked (snd (Cancel p jobID)) = leaked p"
  "flags p g \<noteq> Running \<Longrightarrow> flags (snd (Cancel p jobID)) g \<noteq> Running"
  by (cases "GetJob (jobStore p) jobID";
      simp add: Cancel_found Cancel_not_found Set_flag_keeps)+

lemma CancelAll_fields:
  "nextFlag (CancelAll p) = nextFlag p"
  "sending (CancelAll p) = sending p"
  "workers (CancelAll p) = workers p"
  "leaked (CancelAll p) = leaked p"
  "flags p g \<noteq> Running \<Longrightarrow> flags (CancelAll p) g \<noteq> Running"
  by (simp_all add: CancelAll_def DeleteAllJobs_def set_all_keeps)

lemma Shutdown_fields:
  "nextFlag (Shutdown p) = nextFlag p"
  "sending (Shutdown p) = (if isShutdown p then sending p else [])"
  "workers (Shutdown p) = workers p"
  "leaked (Shutdown p) = leaked p"
  "flags p g \<noteq> Running \<Longrightarrow> flags (Shutdown p) g \<noteq> Running"
  by (simp_all add: Shutdown_def ShutDownAll_def DeleteAllJobs_def set_all_keeps Let_def)

lemma Cancel_tokens_ok: "tokens_ok p \<Longrightarrow> tokens_ok (snd (Cancel p jobID))"
  by (simp add: tokens_ok_def Cancel_fields list_all_iff)

lemma CancelAll_tokens_ok: "tokens_ok p \<Longrightarrow> tokens_ok (CancelAll p)"
  by (simp add: tokens_ok_def CancelAll_fields list_all_iff)

lemma Shutdown_tokens_ok: "tokens_ok p \<Longrightarrow> tokens_ok (Shutdown p)"
  by (simp add: tokens_ok_def Shutdown_fields list_all_iff)

lemma Receive_tokens_ok:
  assumes "exec (Receive i w) p = Some p'" and ok: "tokens_ok p"
  shows "tokens_ok p'"
proof -
  from assms(1) have i: "i < length (sending p)"
    and p': "p' = p\<lparr>sending := remove_nth i (sending p),
                     workers := (workers p)[w := Holding (sending p ! i)]\<rparr>"
    by (auto split: if_splits)
  from ok i have "cancelFlag (sending p ! i) < nextFlag p"
    using list_all_nth [of "\<lambda>token. cancelFlag token < nextFlag p" "sending p" i]
    by (simp add: tokens_ok_def)
  with ok show ?thesis
    unfolding p' tokens_ok_def
    by (simp add: list_all_remove_nth list_all_update)
qed

lemma Check_tokens_ok:
  assumes "exec (Check w) p = Some p'" and ok: "tokens_ok p"
  shows "tokens_ok p'"
proof -
  from assms(1) obtain token where w: "w < length (workers p)"
    and h: "workers p ! w = Holding token"
    and p': "p' = p\<lparr>workers := (workers p)[w := Processing token]\<rparr> \<or>
             p' = p\<lparr>workers := (workers p)[w := Idle]\<rparr>"
    by (auto split: if_splits worker.splits)
  from ok w h have "cancelFlag token < nextFlag p"
    using list_all_nth [of "allocated (nextFlag p)" "workers p" w]
    by (simp add: tokens_ok_def)
  with ok p' show ?thesis
    unfolding tokens_ok_def by (auto simp: list_all_update)
qed

lemma ProcessorReturns_tokens_ok:
  assumes "exec (ProcessorReturns w r) p = Some p'" and ok: "tokens_ok p"
  shows "tokens_ok p'"
proof -
  from assms(1) obtain token where w: "w < length (workers p)"
    and h: "workers p ! w = Processing token"
    and pr: "process (flags p) token r"
    and p': "p' = p\<lparr>jobStore := DeleteJob (jobStore p) (id_t token),
                     workers := (workers p)[w := Idle],
                     leaked := (if r = JobAbandoned then leaked p @ [token] else leaked p)\<rparr>"
    by (auto split: if_splits worker.splits)
  from ok w h have a: "cancelFlag token < nextFlag p"
    using list_all_nth [of "allocated (nextFlag p)" "workers p" w]
    by (simp add: tokens_ok_def)
  from pr have b: "r = JobAbandoned \<Longrightarrow> flags p (cancelFlag token) \<noteq> Running"
    by (simp add: process_def)
  from ok a b show ?thesis
    unfolding p' tokens_ok_def by (auto simp: list_all_update)
qed

lemma exec_tokens_ok:
  assumes "exec a p = Some p'" and "tokens_ok p"
  shows "tokens_ok p'"
proof (cases a)
  case (DoSubmit jobID j)
  with assms show ?thesis by (auto simp: Submit_tokens_ok)
next
  case (Receive i w)
  with assms show ?thesis by (auto intro: Receive_tokens_ok)
next
  case (DoCancel jobID)
  with assms show ?thesis by (auto simp: Cancel_tokens_ok)
next
  case DoCancelAll
  with assms show ?thesis by (auto simp: CancelAll_tokens_ok)
next
  case DoShutdown
  with assms show ?thesis by (auto simp: Shutdown_tokens_ok)
next
  case (Check w)
  with assms show ?thesis by (auto intro: Check_tokens_ok)
next
  case (ProcessorReturns w r)
  with assms show ?thesis by (auto intro: ProcessorReturns_tokens_ok)
next
  case (LeakedReturns i)
  with assms show ?thesis
    by (auto simp: tokens_ok_def list_all_remove_nth split: if_splits)
next
  case (Exit w)
  with assms show ?thesis
    by (auto simp: tokens_ok_def list_all_update split: if_splits)
qed

lemma run_tokens_ok:
  "run as p = Some p' \<Longrightarrow> tokens_ok p \<Longrightarrow> tokens_ok p'"
proof (induction as arbitrary: p)
  case Nil
  then show ?case by simp
next
  case (Cons a as)
  then obtain q where q: "exec a p = Some q" and r: "run as q = Some p'"
    by (auto split: option.splits)
  from Cons.IH [OF r exec_tokens_ok [OF q Cons.prems(2)]] show ?case .
qed

lemma NewPool_tokens_ok: "tokens_ok (NewPool maxParallel cancelWaitDuration)"
  by (simp add: tokens_ok_def NewPool_def list_all_iff)

text \<open>
  C8, as the code has it. In a pool constructed with \<open>maxParallel = N\<close>, at every
  point of every execution: there are exactly \<open>N\<close> workers (none when \<open>N\<close> is
  negative); at most \<open>N\<close> of the jobs that are executing have a cancel flag that
  is still \<open>Running\<close>; the jobs that are executing are at most \<open>N\<close> more than
  the abandoned ones; and the flag of every abandoned job has left \<open>Running\<close>.
  So more than \<open>N\<close> jobs execute at once only when the jobs beyond \<open>N\<close> have been
  canceled or shut down and abandoned by their processor.
\<close>

theorem executing_bound:
  assumes "run as (NewPool maxParallel cancelWaitDuration) = Some p"
  shows "length (workers p) = nat maxParallel \<and>
         length (executing_uncanceled p) \<le> nat maxParallel \<and>
         length (executing p) \<le> nat maxParallel + length (leaked p) \<and>
         list_all (\<lambda>token. flags p (cancelFlag token) \<noteq> Running) (leaked p)"
proof -
  from run_workers_length [OF assms]
  have n: "length (workers p) = nat maxParallel" by (simp add: NewPool_def)
  from run_tokens_ok [OF assms NewPool_tokens_ok]
  have l: "list_all (\<lambda>token. flags p (cancelFlag token) \<noteq> Running) (leaked p)"
    by (simp add: tokens_ok_def list_all_iff)
  then have "filter (\<lambda>token. flags p (cancelFlag token) = Running) (leaked p) = []"
    by (simp add: list_all_iff filter_empty_conv)
  then have "length (executing_uncanceled p) \<le> length (processing (workers p))"
    by (simp add: executing_uncanceled_def executing_def)
  with processing_length [of "workers p"] n
  have u: "length (executing_uncanceled p) \<le> nat maxParallel" by simp
  from processing_length [of "workers p"] n
  have e: "length (executing p) \<le> nat maxParallel + length (leaked p)"
    by (simp add: executing_def)
  from n u e l show ?thesis by simp
qed

theorem executing_bound_witness:
  "\<exists>p. run [DoSubmit ''a'' 0, Receive 0 0, Check 0, DoCancel ''a'', ProcessorReturns 0 JobAbandoned,
            DoSubmit ''b'' 1, Receive 0 0, Check 0] (NewPool 1 100) = Some p \<and>
       length (workers p) = nat 1 \<and>
       length (executing_uncanceled p) \<le> nat 1 \<and>
       length (executing p) \<le> nat 1 + length (leaked p) \<and>
       list_all (\<lambda>token. flags p (cancelFlag token) \<noteq> Running) (leaked p)"
proof -
  have "run [DoSubmit ''a'' 0, Receive 0 0, Check 0, DoCancel ''a'', ProcessorReturns 0 JobAbandoned,
             DoSubmit ''b'' 1, Receive 0 0, Check 0] (NewPool 1 100) \<noteq> None"
    by (simp add: NewPool_def NewJobStore_def Submit_def AddJob_def Canceled_flag_def
          Cancel_def GetJob_def DeleteJob_def Set_flag_def process_def remove_nth_def Let_def)
  then obtain p where
    p: "run [DoSubmit ''a'' 0, Receive 0 0, Check 0, DoCancel ''a'', ProcessorReturns 0 JobAbandoned,
             DoSubmit ''b'' 1, Receive 0 0, Check 0] (NewPool 1 100) = Some p"
    by blast
  from executing_bound [OF p] p show ?thesis by blast
qed

text \<open>
  C8, as the claim states it, fails. In a pool with one worker: job \<open>a\<close> is
  submitted, received and started; it is canceled and does not return, and its
  processor abandons it; job \<open>b\<close> is submitted, received and started by the same
  worker. Now the bodies of two jobs are running, \<open>b\<close> in the worker and \<open>a\<close>
  abandoned.
\<close>

theorem abandoned_job_runs_beside_workers:
  "map_option executing
     (run [DoSubmit ''a'' 0, Receive 0 0, Check 0, DoCancel ''a'', ProcessorReturns 0 JobAbandoned,
           DoSubmit ''b'' 1, Receive 0 0, Check 0] (NewPool 1 100))
   = Some [\<lparr>id_t = ''b'', job = 1, cancelFlag = 1\<rparr>, \<lparr>id_t = ''a'', job = 0, cancelFlag = 0\<rparr>]"
  by (simp add: NewPool_def NewJobStore_def Submit_def AddJob_def Canceled_flag_def
        Cancel_def GetJob_def DeleteJob_def Set_flag_def process_def remove_nth_def executing_def
        Let_def)

end
